theory Spec2Isabelle
  imports Complex_Main
begin

section \<open>Python and numpy basics\<close>

text \<open>
  The embedding follows \<^verbatim>\<open>src/duly/_base.py\<close> and
  \<^verbatim>\<open>src/duly/density_estimation_obsolete.py\<close>. Exceptions are values of
  \<open>error\<close>, and a method that can raise returns \<open>error + 'a\<close>. numpy's
  floating-point numbers are idealised as exact reals: \<open>np.log\<close> is \<open>ln\<close>,
  \<open>pow\<close> and \<open>**\<close> with a real exponent are \<open>powr\<close>. The reals follow the
  floats, up to rounding, where every logarithm and quotient has a positive argument and
  every power a non-negative base and a positive exponent; where numpy would give
  \<open>inf\<close> or \<open>nan\<close> (the logarithm of zero, a division by zero) the value of the model
  has no meaning. One-dimensional arrays are lists, two-dimensional arrays are lists of
  rows of equal length, index arrays hold natural numbers.
\<close>

datatype error =
  AssertionError | IndexError | NameError | AttributeError | TypeError | ValueError
| OverflowError | NotImplementedError

definition ebind :: "error + 'a \<Rightarrow> ('a \<Rightarrow> error + 'b) \<Rightarrow> error + 'b" where
  "ebind m f = (case m of Inl e \<Rightarrow> Inl e | Inr x \<Rightarrow> f x)"

text \<open>Indexing with a Python integer: a negative index counts from the end.\<close>

definition np_get :: "'a list \<Rightarrow> int \<Rightarrow> error + 'a" where
  "np_get xs k =
     (let n = int (length xs); j = (if k < 0 then n + k else k)
      in if 0 \<le> j \<and> j < n then Inr (xs ! nat j) else Inl IndexError)"

definition np_get2 :: "'a list list \<Rightarrow> nat \<Rightarrow> int \<Rightarrow> error + 'a" where
  "np_get2 m i k = (if i < length m then np_get (m ! i) k else Inl IndexError)"


text \<open>\<^verbatim>\<open>a[idx]\<close> for an index array \<open>idx\<close>: the selected entries, or IndexError.\<close>

fun np_take :: "'a list \<Rightarrow> nat list \<Rightarrow> error + 'a list" where
  "np_take xs [] = Inr []"
| "np_take xs (i # is) =
     (if i < length xs
      then (case np_take xs is of Inl e \<Rightarrow> Inl e | Inr ys \<Rightarrow> Inr (xs ! i # ys))
      else Inl IndexError)"

text \<open>\<^verbatim>\<open>a[:, :stop]\<close>: a slice never raises; a negative stop counts from the end.\<close>

definition py_slice_to :: "int \<Rightarrow> 'a list \<Rightarrow> 'a list" where
  "py_slice_to stop xs =
     (if 0 \<le> stop then take (nat stop) xs else take (nat (int (length xs) + stop)) xs)"

text \<open>
  numpy pairs the entries of two one-dimensional operands position by position. Operands of
  equal length are paired entry by entry, an operand with one entry is repeated along the
  other (broadcasting), and operands of two different lengths other than one raise
  ValueError. \<open>blen\<close> is the length of the result and \<open>bnth xs n\<close> the entry of
  \<open>xs\<close> that is paired with position \<open>n\<close> of the result: \<open>xs[n]\<close>, or
  \<open>xs[0]\<close> when that is the only entry.
\<close>

definition broadcastable :: "nat \<Rightarrow> nat \<Rightarrow> bool" where
  "broadcastable m n = (m = n \<or> m = 1 \<or> n = 1)"

definition blen :: "nat \<Rightarrow> nat \<Rightarrow> nat" where
  "blen m n = (if m = 1 then n else m)"

definition bnth :: "'a list \<Rightarrow> nat \<Rightarrow> 'a" where
  "bnth xs n = (if length xs = 1 then xs ! 0 else xs ! n)"

definition np_broadcast :: "('a \<Rightarrow> 'b \<Rightarrow> 'c) \<Rightarrow> 'a list \<Rightarrow> 'b list \<Rightarrow> error + 'c list" where
  "np_broadcast f xs ys =
     (if broadcastable (length xs) (length ys)
      then Inr (map (\<lambda>n. f (bnth xs n) (bnth ys n)) [0..<blen (length xs) (length ys)])
      else Inl ValueError)"

definition shape0 :: "'a list list \<Rightarrow> nat" where
  "shape0 m = length m"

definition shape1 :: "'a list list \<Rightarrow> nat" where
  "shape1 m = (case m of [] \<Rightarrow> 0 | r # _ \<Rightarrow> length r)"

text \<open>
  \<^verbatim>\<open>np.unique(a, return_index=True)\<close> without \<open>axis\<close> flattens \<open>a\<close> (row by row)
  and returns the sorted distinct scalars with, for each, the index of its first occurrence
  in the flattened array.
\<close>

fun first_index :: "'a \<Rightarrow> 'a list \<Rightarrow> nat" where
  "first_index v [] = 0"
| "first_index v (x # xs) = (if x = v then 0 else Suc (first_index v xs))"


definition np_unique_index :: "real list list \<Rightarrow> real list \<times> nat list" where
  "np_unique_index a =
     (let flat = concat a; u = sort (remdups flat)
      in (u, map (\<lambda>v. first_index v flat) u))"

section \<open>The base container: \<^verbatim>\<open>Base.__init__\<close>\<close>

datatype distances_arg =
  DistTuple "real list list" "nat list list"
| DistMatrix "real list list"

record base =
  base_X :: "real list list option"
  base_maxk :: "int option"
  base_dims :: "nat option"
  base_Nele :: "nat option"
  base_distances :: "real list list option"
  base_dist_indices :: "nat list list option"

text \<open>
  The part of the constructor guarded by \<^verbatim>\<open>if coordinates is not None\<close>. The
  coordinates are a two-dimensional \<open>np.ndarray\<close>, so the \<open>isinstance\<close> assertion
  holds; \<open>verb\<close>, \<open>njobs\<close> and \<open>dtype\<close> carry no value of the model and are left
  out.
\<close>

definition init_coordinates :: "real list list \<Rightarrow> bool \<Rightarrow> base \<Rightarrow> error + base" where
  "init_coordinates coordinates remove_identical_points b =
     ebind
       (if remove_identical_points
        then (case np_unique_index coordinates of (_, idx) \<Rightarrow>
                ebind (np_take coordinates (sort idx)) (\<lambda>x'. Inr (x', shape0 x')))
        else Inr (coordinates, shape0 coordinates))
       (\<lambda>(x', nele).
          Inr (b\<lparr>base_X := Some x',
                 base_Nele := Some nele,
                 base_dims := Some (shape1 coordinates),
                 base_distances := None,
                 base_maxk := (case base_maxk b of
                                None \<Rightarrow> Some (int nele - 1)
                              | Some m \<Rightarrow> Some m)\<rparr>))"

text \<open>
  The part guarded by \<^verbatim>\<open>if distances is not None\<close>. In the tuple branch the
  conditional expression that selects \<open>dist_indices\<close> tests the name \<open>is_ndarray\<close>,
  whose only binding in the file is commented out: evaluating the test raises NameError.
  The square-matrix branch calls \<open>from_all_distances_to_nndistances\<close>, which is outside
  the source files and is a parameter.
\<close>

definition init_distances ::
  "(real list list \<Rightarrow> int \<Rightarrow> nat list list \<times> real list list) \<Rightarrow>
   distances_arg \<Rightarrow> base \<Rightarrow> error + base" where
  "init_distances from_all_distances_to_nndistances distances b =
     (case distances of
        DistTuple d0 d1 \<Rightarrow>
          if shape0 d0 \<noteq> shape0 d1 then Inl AssertionError
          else
            let maxk' = (case base_maxk b of None \<Rightarrow> int (shape1 d0) - 1 | Some m \<Rightarrow> m);
                b1 = b\<lparr>base_maxk := Some maxk',
                       base_Nele := Some (shape0 d0),
                       base_distances := Some (map (py_slice_to (maxk' + 1)) d0)\<rparr>
            in Inl NameError
      | DistMatrix d \<Rightarrow>
          if shape0 d \<noteq> shape1 d then Inl AssertionError
          else
            let maxk' = (case base_maxk b of None \<Rightarrow> int (shape1 d) - 1 | Some m \<Rightarrow> m)
            in (case from_all_distances_to_nndistances d maxk' of
                  (ind, dis) \<Rightarrow>
                    Inr (b\<lparr>base_Nele := Some (shape0 d),
                           base_maxk := Some maxk',
                           base_dist_indices := Some ind,
                           base_distances := Some dis\<rparr>)))"

definition Base_init ::
  "(real list list \<Rightarrow> int \<Rightarrow> nat list list \<times> real list list) \<Rightarrow>
   real list list option \<Rightarrow> distances_arg option \<Rightarrow> int option \<Rightarrow> bool \<Rightarrow> error + base" where
  "Base_init from_all_distances_to_nndistances coordinates distances maxk
       remove_identical_points =
     (let b0 = \<lparr>base_X = coordinates, base_maxk = maxk, base_dims = None,
                base_Nele = None, base_distances = None, base_dist_indices = None\<rparr>
      in ebind
           (case coordinates of
              None \<Rightarrow> Inr b0
            | Some c \<Rightarrow> init_coordinates c remove_identical_points b0)
           (\<lambda>b1. case distances of
                    None \<Rightarrow> Inr b1
                  | Some d \<Rightarrow> init_distances from_all_distances_to_nndistances d b1))"

definition has_identical_points :: "real list list \<Rightarrow> bool" where
  "has_identical_points x = (\<not> distinct x)"

section \<open>The density-estimation session\<close>

text \<open>
  \<open>DensityEstimation\<close> keeps its inputs and its caches as attributes. The record holds
  the attributes the methods below read or write. \<open>N\<close> (the number of points),
  \<open>intrinsic_dim\<close> and \<open>period\<close> are set by code outside the source files; the
  session is one whose neighbour distances have been computed, so \<open>distances\<close>,
  \<open>dist_indices\<close> and \<open>maxk\<close> hold values. \<open>check_grads_covmat\<close> is not
  assigned by the constructor: \<open>None\<close> stands for the missing attribute. \<open>verb\<close>
  only switches printing and is left out.
\<close>

datatype kstar_arg = KScalar int | KArray "int list"

datatype period_arg = PScalar real | PArray "real list"

datatype gvar = GVar "real list list" | GCov "real list list list"

datatype chi_arg = ChiAuto | ChiNum real

datatype chi_val = ChiScalar real | ChiArray "real list"



type_synonym matrix = "nat \<Rightarrow> nat \<Rightarrow> real"

record session =
  N :: nat
  maxk :: nat
  dims :: "nat option"
  intrinsic_dim :: "real option"
  X :: "real list list option"
  distances :: "real list list"
  dist_indices :: "nat list list"
  period :: "period_arg option"
  kstar :: "int list option"
  neigh_vector_diffs :: "real list list option"
  nind_list :: "(nat \<times> nat) list option"
  nind_iptr :: "nat list option"
  nind_mat :: "nat list list option"
  common_neighs :: "int list option"
  dc :: "real list option"
  log_den :: "real list option"
  log_den_err :: "real list option"
  grads :: "real list list option"
  grads_var :: "gvar option"
  check_grads_covmat :: "bool option"
  Fij_list :: "real list list option"
  Fij_var_list :: "real list list option"
  Fij_array :: "real list option"
  Fij_var_array :: "real list option"
  A :: "matrix option"
  B :: "matrix option"

text \<open>
  The compiled kernels (\<open>duly.cython_\<close>), the optimisers of \<open>duly.utils_.mlmax\<close>
  and \<open>duly.utils_.mlmax_pytorch\<close>, scipy's \<open>gammaln\<close>, \<open>spsolve\<close> and
  \<open>pinvh\<close>, and \<open>compute_id_2NN\<close> of the parent class are outside the source files:
  they are parameters, and every statement below holds for all of them. \<open>np.empty\<close>
  returns an array holding whatever the memory held: \<open>uninitialised n\<close> stands for its
  entry \<open>n\<close>. The values \<open>"standard"\<close>, \<open>"gPAk+"\<close> and \<open>"g+PAk"\<close> of
  \<open>mode\<close> are \<open>Standard\<close>, \<open>GPAk_plus\<close> and \<open>G_plus_PAk\<close>, the values
  \<open>"zero"\<close> and \<open>"grad"\<close> of \<open>Fij_type\<close> are \<open>Fij_zero\<close> and
  \<open>Fij_grad\<close>; \<open>Other_mode\<close> and \<open>Fij_other\<close> stand for any other value.
\<close>

record kernels =
  gammaln :: "real \<Rightarrow> real"
  compute_id_2NN :: "session \<Rightarrow> error + session"
  cd_compute_kstar ::
    "real \<Rightarrow> nat \<Rightarrow> nat \<Rightarrow> real \<Rightarrow> nat list list \<Rightarrow> real list list \<Rightarrow> int list"
  return_neigh_ind :: "nat list list \<Rightarrow> int list \<Rightarrow> (nat \<times> nat) list \<times> nat list"
  return_neigh_vector_diffs ::
    "real list list option \<Rightarrow> (nat \<times> nat) list \<Rightarrow> real list list"
  return_neigh_vector_diffs_periodic ::
    "real list list option \<Rightarrow> (nat \<times> nat) list \<Rightarrow> real list \<Rightarrow> real list list"
  return_common_neighs :: "int list \<Rightarrow> nat list list \<Rightarrow> (nat \<times> nat) list \<Rightarrow> int list"
  return_grads_and_var_from_nnvecdiffs ::
    "real list list \<Rightarrow> (nat \<times> nat) list \<Rightarrow> nat list \<Rightarrow> int list \<Rightarrow> real \<Rightarrow>
     real list list \<times> real list list"
  return_grads_and_covmat_from_nnvecdiffs ::
    "real list list \<Rightarrow> (nat \<times> nat) list \<Rightarrow> nat list \<Rightarrow> int list \<Rightarrow> real \<Rightarrow>
     real list list \<times> real list list list"
  nrmaxl :: "real \<Rightarrow> int \<Rightarrow> real list \<Rightarrow> nat \<Rightarrow> real"
  spsolve :: "nat \<Rightarrow> matrix \<Rightarrow> real list \<Rightarrow> real list"
  pinvh :: "nat \<Rightarrow> matrix \<Rightarrow> matrix"
  MLmax_gPAk :: "real \<Rightarrow> int \<Rightarrow> real list \<Rightarrow> real list \<Rightarrow> real"
  MLmax_gpPAk :: "real \<Rightarrow> int \<Rightarrow> real list \<Rightarrow> real list \<Rightarrow> real"
  return_deltaFs_from_coords ::
    "real list list \<Rightarrow> nat list list \<Rightarrow> int list \<Rightarrow> real \<Rightarrow>
     real list list \<times> real list list"
  return_deltaFs_from_coords_and_grads ::
    "real list list \<Rightarrow> nat list list \<Rightarrow> int list \<Rightarrow> real list list \<Rightarrow>
     real list list list \<Rightarrow> real list list \<times> real list list"
  maximise ::
    "real list \<Rightarrow> int list \<Rightarrow> real list \<Rightarrow> nat list list \<Rightarrow> real list list option \<Rightarrow>
     real list list option \<Rightarrow> real \<Rightarrow> real \<times> real list"
  maximise_wPAk ::
    "real list \<Rightarrow> int list option \<Rightarrow> real list list \<Rightarrow> nat list list \<Rightarrow> real list list \<Rightarrow>
     real list list \<Rightarrow> real \<Rightarrow> real \<times> real list"
  maximise_wPAk_flatF ::
    "real list \<Rightarrow> real list \<Rightarrow> int list \<Rightarrow> real list list \<Rightarrow> nat list list \<Rightarrow>
     real \<Rightarrow> bool \<Rightarrow> real \<times> real list"
  uninitialised :: "nat \<Rightarrow> real"

text \<open>An attribute that is \<open>None\<close> where an array is needed raises TypeError.\<close>

definition need :: "'a option \<Rightarrow> error + 'a" where
  "need v = (case v of None \<Rightarrow> Inl TypeError | Some x \<Rightarrow> Inr x)"

definition np_at :: "'a list \<Rightarrow> nat \<Rightarrow> error + 'a" where
  "np_at xs i = np_get xs (int i)"

text \<open>A \<open>for\<close> loop over a list of items, threading the loop's variables.\<close>

fun for_each :: "'a list \<Rightarrow> ('a \<Rightarrow> 's \<Rightarrow> error + 's) \<Rightarrow> 's \<Rightarrow> error + 's" where
  "for_each [] body st = Inr st"
| "for_each (x # xs) body st =
     (case body x st of Inl e \<Rightarrow> Inl e | Inr st' \<Rightarrow> for_each xs body st')"

definition py_range :: "int \<Rightarrow> int \<Rightarrow> nat list" where
  "py_range lo hi = [nat lo..<nat hi]"


subsection \<open>\<^verbatim>\<open>set_kstar\<close> and the cache-filling methods\<close>

text \<open>
  \<^verbatim>\<open>np.full(self.N, k, dtype=int)\<close> is an array of 64-bit signed integers. A Python
  integer that fits is stored as it is. numpy 1 (which the source needs: it uses
  \<open>np.float_\<close>) reads a larger \<open>k\<close> below \<open>2\<^sup>6\<^sup>4\<close> as an unsigned 64-bit number
  and casts it, so what is stored is \<open>k - 2\<^sup>6\<^sup>4\<close>; any other \<open>k\<close> has no 64-bit
  form and the conversion of the fill value raises OverflowError. An array without entries
  converts nothing. An array argument is stored as it is.
\<close>

definition int64_wrap :: "int \<Rightarrow> int" where
  "int64_wrap c = (if c < 2 ^ 63 then c else c - 2 ^ 64)"

definition np_full_int :: "nat \<Rightarrow> int \<Rightarrow> error + int list" where
  "np_full_int n c =
     (if n = 0 then Inr []
      else if - (2 ^ 63) \<le> c \<and> c < 2 ^ 64 then Inr (replicate n (int64_wrap c))
      else Inl OverflowError)"

definition set_kstar :: "kstar_arg \<Rightarrow> session \<Rightarrow> error + session" where
  "set_kstar k s =
     ebind (case k of KArray a \<Rightarrow> Inr a | KScalar c \<Rightarrow> np_full_int (N s) c) (\<lambda>ks.
       Inr (s\<lparr>kstar := Some ks,
              neigh_vector_diffs := None,
              nind_list := None,
              nind_iptr := None,
              nind_mat := None,
              common_neighs := None,
              dc := None,
              log_den := None,
              log_den_err := None,
              grads := None,
              grads_var := None,
              Fij_list := None,
              Fij_var_list := None,
              Fij_array := None,
              Fij_var_array := None\<rparr>))"

definition Dthr_default :: real where
  "Dthr_default = 2392812698 / 100000000"

definition compute_kstar :: "kernels \<Rightarrow> real \<Rightarrow> session \<Rightarrow> error + session" where
  "compute_kstar K Dthr s =
     ebind (if intrinsic_dim s = None then compute_id_2NN K s else Inr s) (\<lambda>s1.
     ebind (need (intrinsic_dim s1)) (\<lambda>d.
       set_kstar
         (KArray (cd_compute_kstar K d (N s1) (maxk s1) Dthr
                    (dist_indices s1) (distances s1)))
         s1))"

definition compute_neigh_indices :: "kernels \<Rightarrow> session \<Rightarrow> error + session" where
  "compute_neigh_indices K s =
     ebind (if kstar s = None then compute_kstar K Dthr_default s else Inr s) (\<lambda>s1.
     ebind (need (kstar s1)) (\<lambda>ks.
       case return_neigh_ind K (dist_indices s1) ks of
         (nl, ip) \<Rightarrow> Inr (s1\<lparr>nind_list := Some nl, nind_iptr := Some ip\<rparr>)))"

definition np_full :: "nat \<Rightarrow> period_arg \<Rightarrow> error + real list" where
  "np_full n p =
     (case p of
        PScalar v \<Rightarrow> Inr (replicate n v)
      | PArray vs \<Rightarrow>
          (if length vs = n then Inr vs
           else (case vs of [v] \<Rightarrow> Inr (replicate n v) | _ \<Rightarrow> Inl ValueError)))"

definition compute_neigh_vector_diffs :: "kernels \<Rightarrow> session \<Rightarrow> error + session" where
  "compute_neigh_vector_diffs K s =
     ebind (if nind_list s = None then compute_neigh_indices K s else Inr s) (\<lambda>s1.
     ebind (need (nind_list s1)) (\<lambda>nl.
       case period s1 of
         None \<Rightarrow>
           Inr (s1\<lparr>neigh_vector_diffs := Some (return_neigh_vector_diffs K (X s1) nl)\<rparr>)
       | Some p \<Rightarrow>
           ebind (need (dims s1)) (\<lambda>dm.
           ebind (np_full dm p) (\<lambda>pv.
             Inr (s1\<lparr>neigh_vector_diffs :=
                       Some (return_neigh_vector_diffs_periodic K (X s1) nl pv)\<rparr>)))))"

definition compute_common_neighs :: "kernels \<Rightarrow> session \<Rightarrow> error + session" where
  "compute_common_neighs K s =
     ebind (if nind_list s = None then compute_neigh_indices K s else Inr s) (\<lambda>s1.
     ebind (need (kstar s1)) (\<lambda>ks.
     ebind (need (nind_list s1)) (\<lambda>nl.
       Inr (s1\<lparr>common_neighs := Some (return_common_neighs K ks (dist_indices s1) nl)\<rparr>))))"

definition compute_grads :: "kernels \<Rightarrow> bool \<Rightarrow> session \<Rightarrow> error + session" where
  "compute_grads K comp_covmat s =
     ebind (if kstar s = None then compute_kstar K Dthr_default s else Inr s) (\<lambda>s1.
     ebind (need (neigh_vector_diffs s1)) (\<lambda>vd.
     ebind (need (nind_list s1)) (\<lambda>nl.
     ebind (need (nind_iptr s1)) (\<lambda>ip.
     ebind (need (kstar s1)) (\<lambda>ks.
     ebind (need (intrinsic_dim s1)) (\<lambda>d.
       if \<not> comp_covmat
       then (case return_grads_and_var_from_nnvecdiffs K vd nl ip ks d of
               (g, v) \<Rightarrow> Inr (s1\<lparr>grads := Some g, grads_var := Some (GVar v)\<rparr>))
       else (case return_grads_and_covmat_from_nnvecdiffs K vd nl ip ks d of
               (g, c) \<Rightarrow> Inr (s1\<lparr>grads := Some g, grads_var := Some (GCov c),
                                 check_grads_covmat := Some True\<rparr>))))))))"

subsection \<open>The point-wise estimators\<close>

text \<open>
  \<open>prefactor\<close> is the volume of the unit ball in dimension \<open>d\<close>, in its log-gamma
  form. Each estimator fills three arrays created by \<open>np.zeros(N)\<close>; the loop variable
  \<open>log_den_min\<close> is written but never read and is left out.
\<close>

definition prefactor_of :: "kernels \<Rightarrow> real \<Rightarrow> real" where
  "prefactor_of K d = exp (d / 2 * ln pi - gammaln K ((d + 2) / 2))"

type_synonym out3 = "real list \<times> real list \<times> real list"

definition zeros3 :: "nat \<Rightarrow> out3" where
  "zeros3 n = (replicate n 0, replicate n 0, replicate n 0)"

definition normalise :: "nat \<Rightarrow> real list \<Rightarrow> real list" where
  "normalise n ld = map (\<lambda>v. v - ln (real n)) ld"

definition kNN_body ::
  "real \<Rightarrow> real \<Rightarrow> real list list \<Rightarrow> int list \<Rightarrow> nat \<Rightarrow> out3 \<Rightarrow> error + out3" where
  "kNN_body d prefactor dists ks i st =
     (case st of (dc', log_den', log_den_err') \<Rightarrow>
        ebind (np_at ks i) (\<lambda>k.
        ebind (np_get2 dists i k) (\<lambda>r.
          Inr (dc'[i := r],
               log_den'[i := ln (real_of_int k) - (ln prefactor + d * ln r)],
               log_den_err'[i := 1 / sqrt (real_of_int k)]))))"

definition compute_density_kNN :: "kernels \<Rightarrow> int \<Rightarrow> session \<Rightarrow> error + session" where
  "compute_density_kNN K k s =
     (case intrinsic_dim s of
        None \<Rightarrow> Inl AssertionError
      | Some d \<Rightarrow>
          ebind (set_kstar (KScalar k) s) (\<lambda>s1.
          ebind (need (kstar s1)) (\<lambda>ks.
          ebind (for_each [0..<N s1] (kNN_body d (prefactor_of K d) (distances s1) ks)
                   (zeros3 (N s1)))
            (\<lambda>(dc', log_den', log_den_err').
               Inr (s1\<lparr>log_den := Some (normalise (N s1) log_den'),
                       log_den_err := Some log_den_err',
                       dc := Some dc'\<rparr>)))))"


definition ensure_kstar :: "kernels \<Rightarrow> session \<Rightarrow> error + session" where
  "ensure_kstar K s = (if kstar s = None then compute_kstar K Dthr_default s else Inr s)"





text \<open>
  \<open>compute_density_PAk\<close>. The inner loop fills the shell volumes \<open>vi[j]\<close> for
  \<open>j\<close> in \<open>range(kstar[i])\<close> and leaves with \<open>knn = 1\<close> at the first one below
  \<open>1e-300\<close>; the result pairs \<open>vi\<close> with \<open>knn\<close>.
\<close>

definition underflow :: real where
  "underflow = 1 / 10 ^ 300"

fun shell_loop ::
  "real \<Rightarrow> real \<Rightarrow> real list list \<Rightarrow> nat \<Rightarrow> nat list \<Rightarrow> real list \<Rightarrow> error + real list \<times> nat" where
  "shell_loop prefactor d dists i [] vi = Inr (vi, 0)"
| "shell_loop prefactor d dists i (j # js) vi =
     (case np_get2 dists i (int j + 1) of
        Inl e \<Rightarrow> Inl e
      | Inr r1 \<Rightarrow>
          (case np_get2 dists i (int j) of
             Inl e \<Rightarrow> Inl e
           | Inr r0 \<Rightarrow>
               if j < length vi
               then (let v = prefactor * (r1 powr d - r0 powr d); vi' = vi[j := v]
                     in if v < underflow then Inr (vi', 1)
                        else shell_loop prefactor d dists i js vi')
               else Inl IndexError))"

definition PAk_body ::
  "kernels \<Rightarrow> real \<Rightarrow> real \<Rightarrow> nat \<Rightarrow> real list list \<Rightarrow> int list \<Rightarrow> nat \<Rightarrow> out3 \<Rightarrow>
   error + out3" where
  "PAk_body K d prefactor mk dists ks i st =
     (case st of (dc', log_den', log_den_err') \<Rightarrow>
        ebind (np_at ks i) (\<lambda>k.
        ebind (np_get2 dists i k) (\<lambda>r.
          let rr = ln (real_of_int k) - (ln prefactor + d * ln r)
          in ebind (shell_loop prefactor d dists i (py_range 0 k) (replicate mk 0))
               (\<lambda>(vi, knn).
                  Inr (dc'[i := r],
                       log_den'[i := (if knn = 0 then nrmaxl K rr k vi mk else rr)],
                       log_den_err'[i := sqrt (real_of_int (4 * k + 2)
                                                / real_of_int (k * (k - 1)))])))))"

definition compute_density_PAk :: "kernels \<Rightarrow> session \<Rightarrow> error + session" where
  "compute_density_PAk K s =
     ebind (ensure_kstar K s) (\<lambda>s1.
     ebind (need (intrinsic_dim s1)) (\<lambda>d.
     ebind (need (kstar s1)) (\<lambda>ks.
     ebind (for_each [0..<N s1]
              (PAk_body K d (prefactor_of K d) (maxk s1) (distances s1) ks)
              (zeros3 (N s1)))
       (\<lambda>(dc', log_den', log_den_err').
          Inr (s1\<lparr>log_den := Some (normalise (N s1) log_den'),
                  log_den_err := Some log_den_err',
                  dc := Some dc'\<rparr>)))))"

subsection \<open>Pairwise differences: \<^verbatim>\<open>compute_deltaFs_grads_semisum\<close>\<close>

text \<open>
  \<open>einsum("ij, ij -> i", a, b)\<close> is the row-wise scalar product and
  \<open>einsum("ijk, ik -> ij", c, b)\<close> applies the \<open>i\<close>-th matrix of \<open>c\<close> to the
  \<open>i\<close>-th row of \<open>b\<close>. \<open>einsum\<close> broadcasts like the arithmetic operators: along
  \<open>i\<close> an operand with a single row (or matrix) is paired with every row of the other,
  and along the summed index a row with one entry is repeated; operands whose shapes
  disagree otherwise raise ValueError, and so does a \<open>grads_var\<close> that holds variances
  (two indices) where covariance matrices (three indices) are expected.
\<close>

definition vdot :: "real list \<Rightarrow> real list \<Rightarrow> real" where
  "vdot u v = sum_list (map (\<lambda>m. bnth u m * bnth v m) [0..<blen (length u) (length v)])"

definition einsum_ij_ij_i :: "real list list \<Rightarrow> real list list \<Rightarrow> error + real list" where
  "einsum_ij_ij_i a b =
     (if \<not> broadcastable (length a) (length b) then Inl ValueError
      else if list_all (\<lambda>n. broadcastable (length (bnth a n)) (length (bnth b n)))
                [0..<blen (length a) (length b)]
      then np_broadcast vdot a b
      else Inl ValueError)"

definition einsum_ijk_ik_ij :: "gvar \<Rightarrow> real list list \<Rightarrow> error + real list list" where
  "einsum_ijk_ik_ij g b =
     (case g of
        GVar _ \<Rightarrow> Inl ValueError
      | GCov c \<Rightarrow>
          if \<not> broadcastable (length c) (length b) then Inl ValueError
          else if list_all
                    (\<lambda>n. list_all (\<lambda>row. broadcastable (length row) (length (bnth b n)))
                           (bnth c n))
                    [0..<blen (length c) (length b)]
          then np_broadcast (\<lambda>m v. map (\<lambda>row. vdot row v) m) c b
          else Inl ValueError)"

definition gvar_take :: "gvar \<Rightarrow> nat list \<Rightarrow> error + gvar" where
  "gvar_take g idx =
     (case g of
        GVar v \<Rightarrow> ebind (np_take v idx) (\<lambda>r. Inr (GVar r))
      | GCov c \<Rightarrow> ebind (np_take c idx) (\<lambda>r. Inr (GCov r)))"

text \<open>
  \<open>chi = self.common_neighs / (k1 + k2 - self.common_neighs)\<close> and
  \<open>0.25 * (vari + varj + 2 * chi * np.sqrt(vari * varj))\<close>, operator by operator. A
  numeric \<open>chi\<close> is a scalar and multiplies every entry.
\<close>

definition chi_auto :: "int list \<Rightarrow> int list \<Rightarrow> int list \<Rightarrow> error + real list" where
  "chi_auto cn k1 k2 =
     ebind (np_broadcast (\<lambda>kk c. kk - c) (map2 (+) k1 k2) cn) (\<lambda>den.
       np_broadcast (\<lambda>c dn. real_of_int c / real_of_int dn) cn den)"

definition semisum_var :: "real list \<Rightarrow> real list \<Rightarrow> chi_val \<Rightarrow> error + real list" where
  "semisum_var vari varj chi =
     ebind (np_broadcast (+) vari varj) (\<lambda>t1.
     ebind (np_broadcast (\<lambda>vi vj. sqrt (vi * vj)) vari varj) (\<lambda>t2.
     ebind (case chi of
              ChiScalar c \<Rightarrow> Inr (map (\<lambda>t. 2 * c * t) t2)
            | ChiArray cs \<Rightarrow> np_broadcast (\<lambda>c t. 2 * c * t) cs t2) (\<lambda>t3.
     ebind (np_broadcast (+) t1 t3) (\<lambda>t4.
       Inr (map (\<lambda>t. 0.25 * t) t4)))))"

definition ensure_covmat_grads :: "kernels \<Rightarrow> session \<Rightarrow> error + session" where
  "ensure_covmat_grads K s =
     (if grads s = None then compute_grads K True s
      else (case check_grads_covmat s of
              None \<Rightarrow> Inl AttributeError
            | Some c \<Rightarrow> if c = False then compute_grads K True s else Inr s))"

definition ensure_vector_diffs :: "kernels \<Rightarrow> session \<Rightarrow> error + session" where
  "ensure_vector_diffs K s =
     (if neigh_vector_diffs s = None then compute_neigh_vector_diffs K s else Inr s)"

definition semisum_chi ::
  "kernels \<Rightarrow> chi_arg \<Rightarrow> int list \<Rightarrow> int list \<Rightarrow> session \<Rightarrow> error + session \<times> chi_val" where
  "semisum_chi K chi k1 k2 s =
     (case chi of
        ChiAuto \<Rightarrow>
          ebind (if common_neighs s = None then compute_common_neighs K s else Inr s) (\<lambda>s1.
          ebind (need (common_neighs s1)) (\<lambda>cn.
          ebind (chi_auto cn k1 k2) (\<lambda>c. Inr (s1, ChiArray c))))
      | ChiNum c \<Rightarrow>
          if 0 \<le> c \<and> c \<le> 1 then Inr (s, ChiScalar c) else Inl AssertionError)"

definition compute_deltaFs_grads_semisum ::
  "kernels \<Rightarrow> chi_arg \<Rightarrow> session \<Rightarrow> error + session" where
  "compute_deltaFs_grads_semisum K chi s =
     ebind (ensure_vector_diffs K s) (\<lambda>s1.
     ebind (ensure_covmat_grads K s1) (\<lambda>s2.
     (case nind_list s2 of
        None \<Rightarrow> Inl AttributeError
      | Some nind \<Rightarrow>
     ebind (need (kstar s2)) (\<lambda>ks.
     ebind (np_take ks (map fst nind)) (\<lambda>k1.
     ebind (np_take ks (map snd nind)) (\<lambda>k2.
     ebind (need (grads s2)) (\<lambda>g.
     ebind (np_take g (map fst nind)) (\<lambda>g1.
     ebind (np_take g (map snd nind)) (\<lambda>g2.
     ebind (need (grads_var s2)) (\<lambda>gv.
     ebind (gvar_take gv (map fst nind)) (\<lambda>g_var1.
     ebind (gvar_take gv (map snd nind)) (\<lambda>g_var2.
     ebind (semisum_chi K chi k1 k2 s2) (\<lambda>(s3, chis).
     ebind (need (neigh_vector_diffs s3)) (\<lambda>vd.
     ebind (einsum_ij_ij_i (map2 (map2 (+)) g1 g2) vd) (\<lambda>gd.
     ebind (einsum_ijk_ik_ij g_var1 vd) (\<lambda>ci.
     ebind (einsum_ij_ij_i vd ci) (\<lambda>vari.
     ebind (einsum_ijk_ik_ij g_var2 vd) (\<lambda>cj.
     ebind (einsum_ij_ij_i vd cj) (\<lambda>varj.
     ebind (semisum_var vari varj chis) (\<lambda>fv.
       Inr (s3\<lparr>Fij_array := Some (map (\<lambda>v. 0.5 * v) gd),
               Fij_var_array := Some fv\<rparr>)))))))))))))))))))))"

subsection \<open>The graph solve: \<^verbatim>\<open>compute_density_gCorr\<close> and its siblings\<close>

text \<open>
  A sparse \<open>N \<times> N\<close> matrix is the function of its entries, zero where nothing was
  stored; an assignment outside the shape raises IndexError. \<open>sum(axis=1)\<close> gives the
  row sums and \<open>sum(axis=0)\<close> the column sums.
\<close>

definition lil_zeros :: matrix where
  "lil_zeros = (\<lambda>i j. 0)"

definition lil_set :: "nat \<Rightarrow> matrix \<Rightarrow> nat \<Rightarrow> nat \<Rightarrow> real \<Rightarrow> error + matrix" where
  "lil_set n a i j v =
     (if i < n \<and> j < n then Inr (a(i := (a i)(j := v))) else Inl IndexError)"

definition add_transpose :: "matrix \<Rightarrow> matrix" where
  "add_transpose a = (\<lambda>i j. a i j + a j i)"

definition scale :: "real \<Rightarrow> matrix \<Rightarrow> matrix" where
  "scale c a = (\<lambda>i j. c * a i j)"

definition sum_axis1 :: "nat \<Rightarrow> matrix \<Rightarrow> nat \<Rightarrow> real" where
  "sum_axis1 n a i = (\<Sum>j<n. a i j)"

definition sum_axis0 :: "nat \<Rightarrow> matrix \<Rightarrow> nat \<Rightarrow> real" where
  "sum_axis0 n a j = (\<Sum>i<n. a i j)"

definition setdiag :: "nat \<Rightarrow> matrix \<Rightarrow> real list \<Rightarrow> matrix" where
  "setdiag n a d = (\<lambda>i j. if i = j \<and> i < n \<and> i < length d then d ! i else a i j)"

definition redundancy_of :: "int list \<Rightarrow> int list \<Rightarrow> real list" where
  "redundancy_of k1 k2 = map2 (\<lambda>a b. sqrt (real_of_int (a * b))) k1 k2"

text \<open>
  The loop bodies over \<open>enumerate(nind_list)\<close>. The body for \<open>use_variance\<close> is the
  same text in \<open>compute_density_gCorr\<close> and \<open>compute_density_dF_PAk_gCorr\<close>; the
  bodies of the other branch differ in what they store in \<open>supp_deltaF\<close>.
\<close>

definition edge_var ::
  "nat \<Rightarrow> real list option \<Rightarrow> real list \<Rightarrow> real list \<Rightarrow> nat \<times> nat \<times> nat \<Rightarrow>
   matrix \<times> matrix \<Rightarrow> error + matrix \<times> matrix" where
  "edge_var n fvar fij redundancy e st =
     (case e of (nspar, i, j) \<Rightarrow> case st of (a, supp_deltaF) \<Rightarrow>
        ebind (need fvar) (\<lambda>fv.
        ebind (np_at fv nspar) (\<lambda>v.
        ebind (np_at redundancy nspar) (\<lambda>r.
          let tmp = 1 / v / r
          in ebind (lil_set n a i j (- tmp)) (\<lambda>a'.
             ebind (np_at fij nspar) (\<lambda>f.
             ebind (lil_set n supp_deltaF i j (f * tmp)) (\<lambda>supp'.
               Inr (a', supp'))))))))"

definition gCorr_edge_novar ::
  "nat \<Rightarrow> real list \<Rightarrow> real list \<Rightarrow> nat \<times> nat \<times> nat \<Rightarrow>
   matrix \<times> matrix \<Rightarrow> error + matrix \<times> matrix" where
  "gCorr_edge_novar n fij redundancy e st =
     (case e of (nspar, i, j) \<Rightarrow> case st of (a, supp_deltaF) \<Rightarrow>
        ebind (np_at redundancy nspar) (\<lambda>r.
        ebind (lil_set n a i j (- 1 / r)) (\<lambda>a'.
        ebind (np_at fij nspar) (\<lambda>f.
        ebind (lil_set n supp_deltaF i j f) (\<lambda>supp'.
          Inr (a', supp'))))))"

definition dF_PAk_gCorr_edge_novar ::
  "nat \<Rightarrow> real list \<Rightarrow> real list \<Rightarrow> nat \<times> nat \<times> nat \<Rightarrow>
   matrix \<times> matrix \<Rightarrow> error + matrix \<times> matrix" where
  "dF_PAk_gCorr_edge_novar n fij redundancy e st =
     (case e of (nspar, i, j) \<Rightarrow> case st of (a, supp_deltaF) \<Rightarrow>
        ebind (np_at redundancy nspar) (\<lambda>r.
        ebind (lil_set n a i j (- 1 / r)) (\<lambda>a'.
        ebind (np_at fij nspar) (\<lambda>f.
        ebind (lil_set n supp_deltaF i j (f / r)) (\<lambda>supp'.
          Inr (a', supp'))))))"

definition flow :: "nat \<Rightarrow> matrix \<Rightarrow> real list" where
  "flow n supp_deltaF = map (\<lambda>i. sum_axis0 n supp_deltaF i - sum_axis1 n supp_deltaF i) [0..<n]"

definition gCorr_system ::
  "bool \<Rightarrow> nat \<Rightarrow> int list \<Rightarrow> (nat \<times> nat) list \<Rightarrow> real list \<Rightarrow> real list option \<Rightarrow>
   error + matrix \<times> real list" where
  "gCorr_system use_variance n ks nind fij fvar =
     ebind (np_take ks (map fst nind)) (\<lambda>k1.
     ebind (np_take ks (map snd nind)) (\<lambda>k2.
     ebind (for_each (enumerate 0 nind)
              (if use_variance then edge_var n fvar fij (redundancy_of k1 k2)
               else gCorr_edge_novar n fij (redundancy_of k1 k2))
              (lil_zeros, lil_zeros))
       (\<lambda>(a0, supp_deltaF).
          let a1 = add_transpose a0;
              diag = map (\<lambda>i. - sum_axis1 n a1 i) [0..<n]
          in Inr (setdiag n a1 diag, flow n supp_deltaF))))"

definition store_solution :: "kernels \<Rightarrow> matrix \<Rightarrow> real list \<Rightarrow> session \<Rightarrow> session" where
  "store_solution K a deltaFcum s =
     (let b = pinvh K (N s) a
      in s\<lparr>log_den := Some (spsolve K (N s) a deltaFcum),
           A := Some a,
           B := Some b,
           log_den_err := Some (map (\<lambda>i. sqrt (b i i)) [0..<N s])\<rparr>)"

definition ensure_Fij_array :: "kernels \<Rightarrow> session \<Rightarrow> error + session" where
  "ensure_Fij_array K s =
     (if Fij_array s = None then compute_deltaFs_grads_semisum K ChiAuto s else Inr s)"

definition compute_density_gCorr :: "kernels \<Rightarrow> bool \<Rightarrow> session \<Rightarrow> error + session" where
  "compute_density_gCorr K use_variance s =
     ebind (ensure_Fij_array K s) (\<lambda>s1.
     ebind (need (nind_list s1)) (\<lambda>nind.
     ebind (need (kstar s1)) (\<lambda>ks.
     ebind (need (Fij_array s1)) (\<lambda>fij.
     ebind (gCorr_system use_variance (N s1) ks nind fij (Fij_var_array s1))
       (\<lambda>(a, deltaFcum). Inr (store_solution K a deltaFcum s1))))))"







definition dF_PAk_gCorr_system ::
  "bool \<Rightarrow> real \<Rightarrow> nat \<Rightarrow> int list \<Rightarrow> (nat \<times> nat) list \<Rightarrow> real list \<Rightarrow> real list option \<Rightarrow>
   real list \<Rightarrow> error + matrix \<times> real list" where
  "dF_PAk_gCorr_system use_variance alpha n ks nind fij fvar corrected_vols =
     ebind (np_take ks (map fst nind)) (\<lambda>k1.
     ebind (np_take ks (map snd nind)) (\<lambda>k2.
     ebind (for_each (enumerate 0 nind)
              (if use_variance then edge_var n fvar fij (redundancy_of k1 k2)
               else dF_PAk_gCorr_edge_novar n fij (redundancy_of k1 k2))
              (lil_zeros, lil_zeros))
       (\<lambda>(a0, supp_deltaF).
          if length ks \<noteq> n then Inl ValueError
          else
            let a1 = scale alpha (add_transpose a0);
                diag = map (\<lambda>i. - sum_axis1 n a1 i + (1 - alpha) * real_of_int (ks ! i))
                         [0..<n];
                deltaFcum =
                  map (\<lambda>i. alpha * (flow n supp_deltaF ! i)
                           + (1 - alpha)
                             * (real_of_int (ks ! i)
                                * ln (real_of_int (ks ! i) / (corrected_vols ! i))))
                    [0..<n]
            in Inr (setdiag n a1 diag, deltaFcum))))"


subsection \<open>\<^verbatim>\<open>compute_deltaFs_grad\<close>\<close>





subsection \<open>\<^verbatim>\<open>compute_density_gPAk\<close>\<close>







subsection \<open>\<^verbatim>\<open>compute_density_corr_kstarNN\<close>\<close>




subsection \<open>The estimators that call an optimiser\<close>















subsection \<open>Example inputs\<close>

text \<open>
  The theorems hold for every choice of the kernels. To run the model on a concrete
  session some choice has to be made: \<open>demo_kernels\<close> takes the logarithm of the factorial
  for \<open>gammaln\<close> (its value at the integers), \<open>k* = maxk\<close>, optimisers that stop
  at their starting point, free-energy differences that are all zero, fresh memory that
  holds zeros, and the right-hand side as the solution of the linear system.
  \<open>demo_session\<close> is a session on the three points \<open>(0, 0)\<close>, \<open>(1, 0)\<close> and
  \<open>(3, 0)\<close> with two neighbours each; \<open>demo_graph\<close> adds \<open>k* = 2\<close>, the neighbour
  graph, the displacements and gradients, and \<open>demo_ready\<close> the pairwise differences that
  \<open>compute_deltaFs_grads_semisum\<close> computes from them. \<open>demo_dup\<close> has four points,
  the first two identical, and \<open>k* = 2\<close>: the first shell of points 0 and 1 and the
  second shell of point 2 are empty. \<open>demo_self_pair\<close> is \<open>demo_ready\<close> with a
  neighbour graph whose second pair joins point 1 to itself.
\<close>

definition demo_kernels :: kernels where
  "demo_kernels =
     \<lparr>gammaln = (\<lambda>x. ln (fact (nat \<lfloor>x\<rfloor> - 1))),
      compute_id_2NN = (\<lambda>s. Inr (s\<lparr>intrinsic_dim := Some 2\<rparr>)),
      cd_compute_kstar = (\<lambda>d n mk dthr inds dists. replicate n (int mk)),
      return_neigh_ind = (\<lambda>inds ks. ([], [])),
      return_neigh_vector_diffs = (\<lambda>x nl. []),
      return_neigh_vector_diffs_periodic = (\<lambda>x nl p. []),
      return_common_neighs = (\<lambda>ks inds nl. []),
      return_grads_and_var_from_nnvecdiffs = (\<lambda>vd nl ip ks d. ([], [])),
      return_grads_and_covmat_from_nnvecdiffs = (\<lambda>vd nl ip ks d. ([], [])),
      nrmaxl = (\<lambda>rr k vi mk. rr),
      spsolve = (\<lambda>n a b. b),
      pinvh = (\<lambda>n a. a),
      MLmax_gPAk = (\<lambda>rr k vi Fijs. rr),
      MLmax_gpPAk = (\<lambda>rr k vi Fijs. rr),
      return_deltaFs_from_coords =
        (\<lambda>x inds ks d. (map (\<lambda>k. replicate (nat k) 0) ks, map (\<lambda>k. replicate (nat k) 1) ks)),
      return_deltaFs_from_coords_and_grads =
        (\<lambda>x inds ks g c. (map (\<lambda>k. replicate (nat k) 0) ks, map (\<lambda>k. replicate (nat k) 1) ks)),
      maximise = (\<lambda>Fis ks Vis inds fl fvl alpha. (0, Fis)),
      maximise_wPAk = (\<lambda>ld ks vij inds fl fvl alpha. (0, ld)),
      maximise_wPAk_flatF = (\<lambda>ld le ks vij inds alpha onlyNN. (0, ld)),
      uninitialised = (\<lambda>n. 0)\<rparr>"

definition demo_session :: session where
  "demo_session =
     \<lparr>N = 3, maxk = 2, dims = Some 2, intrinsic_dim = Some 2,
      X = Some [[0, 0], [1, 0], [3, 0]],
      distances = [[0, 1, 3], [0, 1, 2], [0, 2, 3]],
      dist_indices = [[0, 1, 2], [1, 0, 2], [2, 1, 0]],
      period = None, kstar = None, neigh_vector_diffs = None, nind_list = None,
      nind_iptr = None, nind_mat = None, common_neighs = None, dc = None,
      log_den = None, log_den_err = None, grads = None, grads_var = None,
      check_grads_covmat = None, Fij_list = None, Fij_var_list = None,
      Fij_array = None, Fij_var_array = None, A = None, B = None\<rparr>"

definition demo_graph :: session where
  "demo_graph =
     demo_session
       \<lparr>kstar := Some [2, 2, 2],
        nind_list := Some [(0, 1), (1, 0), (2, 1)],
        nind_iptr := Some [0, 1, 2, 3],
        neigh_vector_diffs := Some [[1, 0], [-1, 0], [-2, 0]],
        common_neighs := Some [2, 2, 1],
        grads := Some [[1, 0], [2, 0], [3, 0]],
        grads_var := Some (GCov [[[1, 0], [0, 1]], [[4, 0], [0, 4]], [[1, 0], [0, 1]]]),
        check_grads_covmat := Some True\<rparr>"

definition demo_ready :: session where
  "demo_ready =
     demo_graph\<lparr>Fij_array := Some [3 / 2, - 3 / 2, - 5],
                Fij_var_array := Some [9 / 4, 9 / 4, 19 / 3]\<rparr>"

definition demo_self_pair :: session where
  "demo_self_pair = demo_ready\<lparr>nind_list := Some [(0, 1), (1, 1), (2, 1)]\<rparr>"

definition demo_dup :: session where
  "demo_dup =
     demo_session
       \<lparr>N := 4,
        X := Some [[0, 0], [0, 0], [1, 0], [3, 0]],
        distances := [[0, 0, 1], [0, 0, 1], [0, 1, 1], [0, 2, 3]],
        dist_indices := [[0, 1, 2], [1, 0, 2], [2, 0, 1], [3, 2, 0]],
        kstar := Some [2, 2, 2, 2]\<rparr>"

subsection \<open>Predicates used in the statements and proofs\<close>

text \<open>
  \<open>kNN_point\<close>, \<open>PAk_point\<close>, \<open>kpeaks_point\<close> and \<open>dF_PAk_point\<close> say what
  the loop of an estimator has written at position \<open>i\<close> of its arrays, before the
  normalisation; \<open>shell_volume\<close> is the volume \<open>vi[j]\<close> of
  \<open>compute_density_PAk\<close> and \<open>PAk_value\<close> the value its loop stores in
  \<open>log_den[i]\<close>. \<open>full_triple\<close> says that \<open>log_den\<close>, \<open>log_den_err\<close> and
  \<open>dc\<close> are arrays of length \<open>N\<close>. \<open>bvalid xs n\<close> says that position \<open>n\<close>
  has a partner in \<open>xs\<close> under broadcasting, \<open>quad_form m x\<close> is \<open>x\<^sup>T m x\<close> and
  \<open>chi_at\<close> the correlation coefficient used at a position. \<open>log_den_of\<close>,
  \<open>kstar_of\<close>, \<open>Fij_var_of\<close>, \<open>row_sum_of\<close>, \<open>dc_of\<close>, \<open>returns\<close>,
  \<open>holds_after\<close>, \<open>system_rhs\<close> and \<open>system_entry\<close> read a result that may be
  an exception.
\<close>

definition bvalid :: "'a list \<Rightarrow> nat \<Rightarrow> bool" where
  "bvalid xs n = (length xs = 1 \<or> n < length xs)"

definition quad_form :: "real list list \<Rightarrow> real list \<Rightarrow> real" where
  "quad_form m x = vdot x (map (\<lambda>row. vdot row x) m)"

definition chi_at :: "chi_val \<Rightarrow> nat \<Rightarrow> real" where
  "chi_at chi n = (case chi of ChiScalar c \<Rightarrow> c | ChiArray cs \<Rightarrow> bnth cs n)"

definition Fij_var_of :: "error + session \<Rightarrow> real list option" where
  "Fij_var_of res = (case res of Inl e \<Rightarrow> None | Inr s \<Rightarrow> Fij_var_array s)"

definition len3 :: "nat \<Rightarrow> out3 \<Rightarrow> bool" where
  "len3 n st = (case st of (a, b, c) \<Rightarrow> length a = n \<and> length b = n \<and> length c = n)"

definition kNN_point :: "real \<Rightarrow> real \<Rightarrow> real list list \<Rightarrow> int list \<Rightarrow> nat \<Rightarrow> out3 \<Rightarrow> bool" where
  "kNN_point d pf dists ks i st =
     (case st of (dcs, ld, le) \<Rightarrow>
        \<exists>k r. np_at ks i = Inr k \<and> np_get2 dists i k = Inr r \<and>
              dcs ! i = r \<and> ld ! i = ln (real_of_int k) - (ln pf + d * ln r) \<and>
              le ! i = 1 / sqrt (real_of_int k))"

definition shell_volume :: "real \<Rightarrow> real \<Rightarrow> real list list \<Rightarrow> nat \<Rightarrow> nat \<Rightarrow> real" where
  "shell_volume prefactor d dists i j =
     prefactor * ((dists ! i ! (j + 1)) powr d - (dists ! i ! j) powr d)"

definition PAk_value :: "kernels \<Rightarrow> real \<Rightarrow> real \<Rightarrow> nat \<Rightarrow> real list list \<Rightarrow> nat \<Rightarrow> int \<Rightarrow> real \<Rightarrow> real" where
  "PAk_value K d pf mk dists i k r =
     (let rr = ln (real_of_int k) - (ln pf + d * ln r)
      in if \<exists>j<nat k. shell_volume pf d dists i j < underflow then rr
         else nrmaxl K rr k
                (map (shell_volume pf d dists i) [0..<nat k] @ replicate (mk - nat k) 0) mk)"

definition PAk_point ::
  "kernels \<Rightarrow> real \<Rightarrow> real \<Rightarrow> nat \<Rightarrow> real list list \<Rightarrow> int list \<Rightarrow> nat \<Rightarrow> out3 \<Rightarrow> bool" where
  "PAk_point K d pf mk dists ks i st =
     (case st of (dcs, ld, le) \<Rightarrow>
        \<exists>k r. np_at ks i = Inr k \<and> np_get2 dists i k = Inr r \<and>
              dcs ! i = r \<and> ld ! i = PAk_value K d pf mk dists i k r \<and>
              le ! i = sqrt (real_of_int (4 * k + 2) / real_of_int (k * (k - 1))))"










definition system_rhs :: "error + matrix \<times> real list \<Rightarrow> real list option" where
  "system_rhs res = (case res of Inl e \<Rightarrow> None | Inr (a, deltaFcum) \<Rightarrow> Some deltaFcum)"

definition system_entry :: "error + matrix \<times> real list \<Rightarrow> nat \<Rightarrow> nat \<Rightarrow> real option" where
  "system_entry res i j = (case res of Inl e \<Rightarrow> None | Inr (a, deltaFcum) \<Rightarrow> Some (a i j))"

definition kstar_of :: "error + session \<Rightarrow> int list option" where
  "kstar_of res = (case res of Inl e \<Rightarrow> None | Inr s \<Rightarrow> kstar s)"

definition row_sum_of :: "error + session \<Rightarrow> nat \<Rightarrow> real option" where
  "row_sum_of res i =
     (case res of
        Inl e \<Rightarrow> None
      | Inr s \<Rightarrow> (case A s of None \<Rightarrow> None | Some a \<Rightarrow> Some (sum_axis1 (N s) a i)))"


definition returns :: "error + 'a \<Rightarrow> bool" where
  "returns res = (case res of Inl e \<Rightarrow> False | Inr v \<Rightarrow> True)"

definition zero_diag :: "matrix \<times> matrix \<Rightarrow> bool" where
  "zero_diag st = (\<forall>i. fst st i i = 0)"



section \<open>Auxiliary lemmas\<close>

lemma ebind_Inr_iff: "ebind m f = Inr y \<longleftrightarrow> (\<exists>x. m = Inr x \<and> f x = Inr y)"
  by (cases m) (simp_all add: ebind_def)

lemma need_Inr_iff: "need v = Inr x \<longleftrightarrow> v = Some x"
  by (cases v) (simp_all add: need_def)

lemma for_each_append:
  "for_each (xs @ ys) body st =
     (case for_each xs body st of Inl e \<Rightarrow> Inl e | Inr st' \<Rightarrow> for_each ys body st')"
  by (induction xs arbitrary: st) (auto split: sum.splits)

text \<open>
  A loop over \<open>range(n)\<close> whose body establishes \<open>P i\<close> at step \<open>i\<close>, keeps what
  earlier steps established and keeps the invariant \<open>I\<close>, ends with \<open>P i\<close> for every
  \<open>i < n\<close>.
\<close>

lemma for_each_upt_prefix:
  assumes step: "\<And>i st st'. i < n \<Longrightarrow> I st \<Longrightarrow> (\<forall>j<i. P j st) \<Longrightarrow> body i st = Inr st' \<Longrightarrow>
                   I st' \<and> (\<forall>j\<le>i. P j st')"
  shows "m \<le> n \<Longrightarrow> I st0 \<Longrightarrow> for_each [0..<m] body st0 = Inr st \<Longrightarrow> I st \<and> (\<forall>i<m. P i st)"
proof (induction m arbitrary: st)
  case 0
  then show ?case by simp
next
  case (Suc m)
  from Suc.prems(3) obtain st1 where
    r1: "for_each [0..<m] body st0 = Inr st1" and r2: "body m st1 = Inr st"
    by (auto simp: for_each_append split: sum.splits)
  from Suc.IH [OF _ Suc.prems(2) r1] Suc.prems(1)
  have "I st1" and "\<forall>i<m. P i st1" by auto
  with step [of m st1 st] r2 Suc.prems(1) have "I st \<and> (\<forall>j\<le>m. P j st)" by auto
  then show ?case by (auto simp: less_Suc_eq_le)
qed

lemma for_each_upt_pointwise:
  assumes run: "for_each [0..<n] body st0 = Inr st"
    and inv0: "I st0"
    and step: "\<And>i st st'. i < n \<Longrightarrow> I st \<Longrightarrow> (\<forall>j<i. P j st) \<Longrightarrow> body i st = Inr st' \<Longrightarrow>
                   I st' \<and> (\<forall>j\<le>i. P j st')"
  shows "I st \<and> (\<forall>i<n. P i st)"
  using for_each_upt_prefix [of n I P body n st0 st] step inv0 run by blast

lemma len3_zeros3: "len3 n (zeros3 n)"
  by (simp add: len3_def zeros3_def)

lemma kNN_loop:
  assumes "for_each [0..<n] (kNN_body d pf dists ks) (zeros3 n) = Inr st"
  shows "len3 n st \<and> (\<forall>i<n. kNN_point d pf dists ks i st)"
proof (rule for_each_upt_pointwise
    [where I = "len3 n" and P = "kNN_point d pf dists ks", OF assms len3_zeros3])
  fix i st st'
  assume "i < n" "len3 n st" "\<forall>j<i. kNN_point d pf dists ks j st"
    "kNN_body d pf dists ks i st = Inr st'"
  then show "len3 n st' \<and> (\<forall>j\<le>i. kNN_point d pf dists ks j st')"
    by (auto simp: kNN_body_def len3_def kNN_point_def ebind_Inr_iff le_less nth_list_update)
qed

lemma np_full_int_Inr:
  "np_full_int n c = Inr ks \<Longrightarrow> ks = replicate n (int64_wrap c)"
  by (auto simp: np_full_int_def split: if_splits)

lemma set_kstar_Inr:
  assumes "set_kstar k s = Inr s1"
  shows "\<exists>ks. (case k of KArray a \<Rightarrow> Inr a | KScalar c \<Rightarrow> np_full_int (N s) c) = Inr ks \<and>
           s1 = s\<lparr>kstar := Some ks, neigh_vector_diffs := None, nind_list := None,
                  nind_iptr := None, nind_mat := None, common_neighs := None, dc := None,
                  log_den := None, log_den_err := None, grads := None, grads_var := None,
                  Fij_list := None, Fij_var_list := None, Fij_array := None,
                  Fij_var_array := None\<rparr>"
  using assms by (auto simp: set_kstar_def ebind_Inr_iff)

lemma set_kstar_scalar:
  assumes "set_kstar (KScalar k) s = Inr s1"
  shows "kstar s1 = Some (replicate (N s) (int64_wrap k))" and "N s1 = N s"
    and "distances s1 = distances s" and "intrinsic_dim s1 = intrinsic_dim s"
  using set_kstar_Inr [OF assms] by (auto dest: np_full_int_Inr)

lemma kNN_result:
  assumes run: "compute_density_kNN K k s = Inr s'"
  shows "\<exists>d s1 st. intrinsic_dim s = Some d \<and> set_kstar (KScalar k) s = Inr s1 \<and>
           len3 (N s) st \<and>
           (\<forall>i<N s. kNN_point d (prefactor_of K d) (distances s)
                       (replicate (N s) (int64_wrap k)) i st) \<and>
           s' = s1\<lparr>log_den := Some (normalise (N s) (fst (snd st))),
                  log_den_err := Some (snd (snd st)), dc := Some (fst st)\<rparr>"
proof -
  from run obtain d where d: "intrinsic_dim s = Some d"
    by (auto simp: compute_density_kNN_def split: option.splits)
  from run d obtain s1 ks st where
    s1: "set_kstar (KScalar k) s = Inr s1" and ks: "kstar s1 = Some ks"
    and loop: "for_each [0..<N s1] (kNN_body d (prefactor_of K d) (distances s1) ks)
             (zeros3 (N s1)) = Inr st"
    and s': "s' = s1\<lparr>log_den := Some (normalise (N s1) (fst (snd st))),
                  log_den_err := Some (snd (snd st)), dc := Some (fst st)\<rparr>"
    by (auto simp: compute_density_kNN_def ebind_Inr_iff need_Inr_iff)
  note f = set_kstar_scalar [OF s1]
  from ks f(1) have kse: "ks = replicate (N s) (int64_wrap k)" by simp
  from kNN_loop [OF loop] d s1 s' show ?thesis unfolding kse f by blast
qed

lemma np_get2_nat:
  "np_get2 m i (int j) = Inr r \<Longrightarrow> r = m ! i ! j \<and> i < length m \<and> j < length (m ! i)"
  by (auto simp: np_get2_def np_get_def Let_def split: if_splits)

lemma np_get2_nat_Suc:
  "np_get2 m i (int j + 1) = Inr r \<Longrightarrow> r = m ! i ! (j + 1) \<and> i < length m \<and> j + 1 < length (m ! i)"
  using np_get2_nat [of m i "j + 1" r] by (simp add: add.commute)

lemma shell_loop_Inr:
  "shell_loop pf d dists i js vi = Inr (vi', knn) \<Longrightarrow>
     (if \<exists>j\<in>set js. shell_volume pf d dists i j < underflow then knn = 1
      else knn = 0 \<and> (\<forall>j\<in>set js. j < length vi) \<and>
           vi' = fold (\<lambda>j v. v[j := shell_volume pf d dists i j]) js vi)"
proof (induction js arbitrary: vi)
  case Nil
  then show ?case by simp
next
  case (Cons j js)
  from Cons.prems obtain r1 r0 where
    r1: "np_get2 dists i (int j + 1) = Inr r1" and r0: "np_get2 dists i (int j) = Inr r0"
    and j: "j < length vi"
    by (auto split: sum.splits if_splits)
  from np_get2_nat_Suc [OF r1] np_get2_nat [OF r0]
  have v: "pf * (r1 powr d - r0 powr d) = shell_volume pf d dists i j"
    by (simp add: shell_volume_def)
  show ?case
  proof (cases "shell_volume pf d dists i j < underflow")
    case True
    with Cons.prems r1 r0 j v show ?thesis by (simp add: Let_def)
  next
    case False
    with Cons.prems r1 r0 j v
    have rec: "shell_loop pf d dists i js (vi[j := shell_volume pf d dists i j]) = Inr (vi', knn)"
      by (simp add: Let_def)
    from Cons.IH [OF rec] False j show ?thesis by (auto split: if_splits)
  qed
qed

lemma fold_update_upt:
  "k \<le> length vi \<Longrightarrow> fold (\<lambda>j v. v[j := f j]) [0..<k] vi = map f [0..<k] @ drop k vi"
proof (induction k)
  case 0
  then show ?case by simp
next
  case (Suc k)
  then have k: "k < length vi" by simp
  have "fold (\<lambda>j v. v[j := f j]) [0..<Suc k] vi = (map f [0..<k] @ drop k vi)[k := f k]"
    using Suc by simp
  also have "\<dots> = map f [0..<k] @ (drop k vi)[0 := f k]"
    by (simp add: list_update_append)
  also from k have "(drop k vi)[0 := f k] = f k # drop (Suc k) vi"
    by (metis Cons_nth_drop_Suc list_update_code(2))
  finally show ?case by simp
qed

lemma shell_loop_range:
  assumes "shell_loop pf d dists i (py_range 0 k) (replicate mk 0) = Inr (vi', knn)"
  shows "if \<exists>j<nat k. shell_volume pf d dists i j < underflow then knn = 1
         else knn = 0 \<and>
              vi' = map (shell_volume pf d dists i) [0..<nat k] @ replicate (mk - nat k) 0"
proof -
  have ex: "(\<exists>j\<in>set (py_range 0 k). shell_volume pf d dists i j < underflow) \<longleftrightarrow>
            (\<exists>j<nat k. shell_volume pf d dists i j < underflow)"
    by (auto simp: py_range_def)
  show ?thesis
  proof (cases "\<exists>j<nat k. shell_volume pf d dists i j < underflow")
    case True
    with shell_loop_Inr [OF assms] ex show ?thesis by simp
  next
    case False
    with shell_loop_Inr [OF assms] ex
    have knn: "knn = 0" and b: "\<forall>j\<in>set (py_range 0 k). j < length (replicate mk (0::real))"
      and vi': "vi' = fold (\<lambda>j v. v[j := shell_volume pf d dists i j]) (py_range 0 k)
                       (replicate mk 0)"
      by simp_all
    from b have "\<forall>j<nat k. j < mk" by (simp add: py_range_def)
    then have "nat k \<le> mk"
      by (cases "nat k") (auto simp: less_Suc_eq_le dest: spec [of _ "nat k - 1"])
    with vi' have "vi' = map (shell_volume pf d dists i) [0..<nat k] @ replicate (mk - nat k) 0"
      by (simp add: fold_update_upt py_range_def)
    with knn False show ?thesis by simp
  qed
qed

lemma PAk_body_Inr:
  assumes "PAk_body K d pf mk dists ks i (dcs, ld, le) = Inr st'"
  shows "\<exists>k r. np_at ks i = Inr k \<and> np_get2 dists i k = Inr r \<and>
           st' = (dcs[i := r], ld[i := PAk_value K d pf mk dists i k r],
                  le[i := sqrt (real_of_int (4 * k + 2) / real_of_int (k * (k - 1)))])"
proof -
  from assms obtain k r vi knn where
    k: "np_at ks i = Inr k" and r: "np_get2 dists i k = Inr r"
    and sl: "shell_loop pf d dists i (py_range 0 k) (replicate mk 0) = Inr (vi, knn)"
    and st': "st' = (dcs[i := r],
        ld[i := (if knn = 0 then nrmaxl K (ln (real_of_int k) - (ln pf + d * ln r)) k vi mk
                 else ln (real_of_int k) - (ln pf + d * ln r))],
        le[i := sqrt (real_of_int (4 * k + 2) / real_of_int (k * (k - 1)))])"
    by (auto simp: PAk_body_def ebind_Inr_iff Let_def)
  from shell_loop_range [OF sl]
  have "(if knn = 0 then nrmaxl K (ln (real_of_int k) - (ln pf + d * ln r)) k vi mk
         else ln (real_of_int k) - (ln pf + d * ln r)) = PAk_value K d pf mk dists i k r"
    by (auto simp: PAk_value_def Let_def split: if_splits)
  with k r st' show ?thesis by simp
qed

lemma PAk_loop:
  assumes "for_each [0..<n] (PAk_body K d pf mk dists ks) (zeros3 n) = Inr st"
  shows "len3 n st \<and> (\<forall>i<n. PAk_point K d pf mk dists ks i st)"
proof (rule for_each_upt_pointwise
    [where I = "len3 n" and P = "PAk_point K d pf mk dists ks", OF assms len3_zeros3])
  fix i st st'
  assume i: "i < n" and len: "len3 n st" and prev: "\<forall>j<i. PAk_point K d pf mk dists ks j st"
    and body: "PAk_body K d pf mk dists ks i st = Inr st'"
  obtain dcs ld le where st: "st = (dcs, ld, le)" by (cases st)
  from PAk_body_Inr [OF body [unfolded st]] obtain k r where
    k: "np_at ks i = Inr k" and r: "np_get2 dists i k = Inr r"
    and st': "st' = (dcs[i := r], ld[i := PAk_value K d pf mk dists i k r],
                  le[i := sqrt (real_of_int (4 * k + 2) / real_of_int (k * (k - 1)))])"
    by blast
  from i len prev st st' k r
  show "len3 n st' \<and> (\<forall>j\<le>i. PAk_point K d pf mk dists ks j st')"
    by (auto simp: len3_def PAk_point_def le_less nth_list_update)
qed

lemma PAk_result:
  assumes run: "compute_density_PAk K s = Inr s'"
  shows "\<exists>s1 d ks st. ensure_kstar K s = Inr s1 \<and> intrinsic_dim s1 = Some d \<and>
           kstar s1 = Some ks \<and> len3 (N s1) st \<and>
           (\<forall>i<N s1. PAk_point K d (prefactor_of K d) (maxk s1) (distances s1) ks i st) \<and>
           s' = s1\<lparr>log_den := Some (normalise (N s1) (fst (snd st))),
                  log_den_err := Some (snd (snd st)), dc := Some (fst st)\<rparr>"
proof -
  from run obtain s1 d ks st where
    s1: "ensure_kstar K s = Inr s1" and d: "intrinsic_dim s1 = Some d"
    and ks: "kstar s1 = Some ks"
    and loop: "for_each [0..<N s1]
                 (PAk_body K d (prefactor_of K d) (maxk s1) (distances s1) ks)
                 (zeros3 (N s1)) = Inr st"
    and s': "s' = s1\<lparr>log_den := Some (normalise (N s1) (fst (snd st))),
                  log_den_err := Some (snd (snd st)), dc := Some (fst st)\<rparr>"
    by (auto simp: compute_density_PAk_def ebind_Inr_iff need_Inr_iff)
  from PAk_loop [OF loop] s1 d ks s' show ?thesis by blast
qed

lemma pi_not_underflow: "1 \<le> c \<Longrightarrow> \<not> pi * c < underflow"
proof -
  assume c: "1 \<le> c"
  have "underflow \<le> 1" by (simp add: underflow_def)
  also have "1 \<le> pi * 1" using pi_ge_two by simp
  also from c have "pi * 1 \<le> pi * c" by (intro mult_left_mono) simp_all
  finally show ?thesis by simp
qed

lemma prefactor_demo: "prefactor_of demo_kernels 2 = pi"
  by (simp add: prefactor_of_def demo_kernels_def)





lemma gCorr_result:
  assumes run: "compute_density_gCorr K uv s = Inr s'"
  shows "\<exists>s1 nind ks fij a b. ensure_Fij_array K s = Inr s1 \<and> nind_list s1 = Some nind \<and>
           kstar s1 = Some ks \<and> Fij_array s1 = Some fij \<and>
           gCorr_system uv (N s1) ks nind fij (Fij_var_array s1) = Inr (a, b) \<and>
           s' = store_solution K a b s1"
  using run by (auto simp: compute_density_gCorr_def ebind_Inr_iff need_Inr_iff)

lemma store_solution_fields:
  "log_den (store_solution K a b s) = Some (spsolve K (N s) a b)"
  "A (store_solution K a b s) = Some a"
  "dc (store_solution K a b s) = dc s"
  "N (store_solution K a b s) = N s"
  "kstar (store_solution K a b s) = kstar s"
  "nind_list (store_solution K a b s) = nind_list s"
  "Fij_array (store_solution K a b s) = Fij_array s"
  "Fij_var_array (store_solution K a b s) = Fij_var_array s"
  by (simp_all add: store_solution_def Let_def)




lemmas demo_eval =
  demo_ready_def demo_graph_def demo_dup_def demo_session_def prefactor_demo
  ensure_kstar_def ensure_Fij_array_def need_def ebind_def zeros3_def
  np_at_def np_get_def np_get2_def py_range_def normalise_def upt_rec eval_nat_numeral Let_def




lemma demo_run_kNN:
  "compute_density_kNN demo_kernels 1 demo_session =
      Inr (demo_session
            \<lparr>kstar := Some [1, 1, 1],
             log_den := Some [- ln pi - ln 3, - ln pi - ln 3, - ln pi - 2 * ln 2 - ln 3],
             log_den_err := Some [1, 1, 1], dc := Some [1, 1, 2]\<rparr>)"
  by (simp add: compute_density_kNN_def set_kstar_def np_full_int_def int64_wrap_def
      kNN_body_def demo_eval)

lemma demo_run_PAk:
  "compute_density_PAk demo_kernels demo_dup =
      Inr (demo_dup\<lparr>log_den := Some [ln 2 - ln pi - ln 4, ln 2 - ln pi - ln 4,
                                      ln 2 - ln pi - ln 4, ln 2 - (ln pi + 2 * ln 3) - ln 4],
             log_den_err := Some [sqrt 5, sqrt 5, sqrt 5, sqrt 5], dc := Some [1, 1, 1, 3]\<rparr>)"
proof -
  have u: "0 < underflow" "\<not> pi * 4 < underflow" "\<not> pi * 5 < underflow"
    by (simp_all add: pi_not_underflow) (simp add: underflow_def)
  then show ?thesis
    by (simp add: compute_density_PAk_def PAk_body_def demo_eval
        demo_kernels_def[THEN arg_cong, of nrmaxl])
qed

lemmas system_eval =
  gCorr_system_def dF_PAk_gCorr_system_def edge_var_def gCorr_edge_novar_def
  dF_PAk_gCorr_edge_novar_def redundancy_of_def lil_set_def lil_zeros_def add_transpose_def
  scale_def setdiag_def flow_def sum_axis0_def sum_axis1_def enumerate_eq_zip
  need_def ebind_def np_at_def np_get_def upt_rec eval_nat_numeral Let_def lessThan_Suc

lemma demo_run_gCorr:
  "\<exists>a b. compute_density_gCorr K uv demo_ready = Inr (store_solution K a b demo_ready)"
proof (cases uv)
  case True
  then show ?thesis
    by (simp add: compute_density_gCorr_def ensure_Fij_array_def demo_ready_def demo_graph_def
        demo_session_def system_eval) blast
next
  case False
  then show ?thesis
    by (simp add: compute_density_gCorr_def ensure_Fij_array_def demo_ready_def demo_graph_def
        demo_session_def system_eval) blast
qed

lemma for_each_invariant:
  assumes "for_each xs body st = Inr st'" and "I st"
    and "\<And>x st st'. x \<in> set xs \<Longrightarrow> I st \<Longrightarrow> body x st = Inr st' \<Longrightarrow> I st'"
  shows "I st'"
  using assms
proof (induction xs arbitrary: st)
  case Nil
  then show ?case by simp
next
  case (Cons x xs)
  from Cons.prems(1) obtain st1 where b: "body x st = Inr st1"
    and r: "for_each xs body st1 = Inr st'"
    by (auto split: sum.splits)
  from Cons.prems(3) [of x st st1] b Cons.prems(2) have i1: "I st1" by simp
  show ?case
  proof (rule Cons.IH [OF r i1])
    fix y st2 st3
    assume "y \<in> set xs" "I st2" "body y st2 = Inr st3"
    then show "I st3" using Cons.prems(3) [of y st2 st3] by simp
  qed
qed

lemma lil_set_off_diag:
  "lil_set n a i j v = Inr a' \<Longrightarrow> i \<noteq> j \<Longrightarrow> a' m m = a m m"
  by (auto simp: lil_set_def split: if_splits)

lemma enumerate_edge: "(nspar, i, j) \<in> set (enumerate 0 nind) \<Longrightarrow> (i, j) \<in> set nind"
  by (metis in_set_enumerate_eq diff_zero fst_conv snd_conv add.right_neutral nth_mem)

lemma edge_var_zero_diag:
  "edge_var n fvar fij red (nspar, i, j) st = Inr st' \<Longrightarrow> i \<noteq> j \<Longrightarrow> zero_diag st \<Longrightarrow>
     zero_diag st'"
  by (cases st)
    (auto simp: edge_var_def zero_diag_def ebind_Inr_iff Let_def dest: lil_set_off_diag)

lemma gCorr_edge_novar_zero_diag:
  "gCorr_edge_novar n fij red (nspar, i, j) st = Inr st' \<Longrightarrow> i \<noteq> j \<Longrightarrow> zero_diag st \<Longrightarrow>
     zero_diag st'"
  by (cases st)
    (auto simp: gCorr_edge_novar_def zero_diag_def ebind_Inr_iff dest: lil_set_off_diag)

lemma setdiag_row_sum:
  assumes i: "i < n" and z: "a1 i i = 0"
  shows "(\<Sum>j<n. setdiag n a1 (map (\<lambda>i. - sum_axis1 n a1 i) [0..<n]) i j) = 0"
    and "setdiag n a1 (map (\<lambda>i. - sum_axis1 n a1 i) [0..<n]) i i =
         - (\<Sum>j\<in>{..<n} - {i}. setdiag n a1 (map (\<lambda>i. - sum_axis1 n a1 i) [0..<n]) i j)"
proof -
  let ?a = "setdiag n a1 (map (\<lambda>i. - sum_axis1 n a1 i) [0..<n])"
  from i have d: "?a i i = - (\<Sum>j<n. a1 i j)"
    by (simp add: setdiag_def sum_axis1_def)
  have off: "(\<Sum>j\<in>{..<n} - {i}. ?a i j) = (\<Sum>j\<in>{..<n} - {i}. a1 i j)"
    by (rule sum.cong) (auto simp: setdiag_def)
  from i have split: "\<And>f::nat \<Rightarrow> real. (\<Sum>j<n. f j) = f i + (\<Sum>j\<in>{..<n} - {i}. f j)"
    by (intro sum.remove) simp_all
  from split [of "a1 i"] z have "(\<Sum>j<n. a1 i j) = (\<Sum>j\<in>{..<n} - {i}. a1 i j)" by simp
  with d off show "?a i i = - (\<Sum>j\<in>{..<n} - {i}. ?a i j)" by simp
  with split [of "?a i"] show "(\<Sum>j<n. ?a i j) = 0" by simp
qed

lemma gCorr_system_rows:
  assumes sys: "gCorr_system uv n ks nind fij fvar = Inr (a, b)"
    and loops: "\<forall>(i, j)\<in>set nind. i \<noteq> j" and i: "i < n"
  shows "(\<Sum>j<n. a i j) = 0 \<and> a i i = - (\<Sum>j\<in>{..<n} - {i}. a i j)"
proof -
  from sys obtain k1 k2 a0 supp where
    loop: "for_each (enumerate 0 nind)
             (if uv then edge_var n fvar fij (redundancy_of k1 k2)
              else gCorr_edge_novar n fij (redundancy_of k1 k2))
             (lil_zeros, lil_zeros) = Inr (a0, supp)"
    and a: "a = setdiag n (add_transpose a0)
                  (map (\<lambda>i. - sum_axis1 n (add_transpose a0) i) [0..<n])"
    by (auto simp: gCorr_system_def ebind_Inr_iff Let_def)
  have "zero_diag (a0, supp)"
  proof (rule for_each_invariant [OF loop])
    show "zero_diag (lil_zeros, lil_zeros)" by (simp add: zero_diag_def lil_zeros_def)
  next
    fix x st st'
    assume x: "x \<in> set (enumerate 0 nind)" and z: "zero_diag st"
      and body: "(if uv then edge_var n fvar fij (redundancy_of k1 k2)
                  else gCorr_edge_novar n fij (redundancy_of k1 k2)) x st = Inr st'"
    obtain nspar i j where xe: "x = (nspar, i, j)" by (cases x)
    with x loops have "i \<noteq> j" by (auto dest: enumerate_edge)
    with body z xe show "zero_diag st'"
      by (auto split: if_splits dest: edge_var_zero_diag gCorr_edge_novar_zero_diag)
  qed
  then have "add_transpose a0 i i = 0" by (simp add: zero_diag_def add_transpose_def)
  from setdiag_row_sum [of i n "add_transpose a0", OF i this] a show ?thesis by simp
qed

lemma np_take_Inr:
  "np_take xs idx = Inr ys \<Longrightarrow> ys = map ((!) xs) idx \<and> (\<forall>i\<in>set idx. i < length xs)"
  by (induction idx arbitrary: ys) (auto split: if_splits sum.splits)

lemma bnth_less: "n < length xs \<Longrightarrow> bnth xs n = xs ! n"
  by (auto simp: bnth_def)

lemma bvalid_less: "n < length xs \<Longrightarrow> bvalid xs n"
  by (simp add: bvalid_def)

lemma bnth_mem: "bvalid xs n \<Longrightarrow> bnth xs n \<in> set xs"
  by (auto simp: bvalid_def bnth_def)

lemma bnth_map: "bvalid xs n \<Longrightarrow> bnth (map f xs) n = f (bnth xs n)"
  by (auto simp: bvalid_def bnth_def)

lemma bvalid_map: "bvalid (map f xs) n = bvalid xs n"
  by (simp add: bvalid_def)

lemma np_broadcast_length:
  "np_broadcast f xs ys = Inr zs \<Longrightarrow>
     length zs = blen (length xs) (length ys) \<and> broadcastable (length xs) (length ys)"
  by (auto simp: np_broadcast_def split: if_splits)

lemma bnth_broadcast:
  assumes "np_broadcast f xs ys = Inr zs" and "bvalid zs n"
  shows "bnth zs n = f (bnth xs n) (bnth ys n)" and "bvalid xs n" and "bvalid ys n"
  using assms
  by (auto simp: np_broadcast_def bvalid_def bnth_def blen_def broadcastable_def
      split: if_splits)

lemma blen_absorb: "broadcastable m n \<Longrightarrow> blen n (blen m n) = blen m n"
  by (auto simp: blen_def broadcastable_def)

lemma blen_absorb2: "broadcastable m n \<Longrightarrow> blen m (blen n m) = blen m n"
  by (auto simp: blen_def broadcastable_def)

lemma blen_same: "blen m m = m"
  by (simp add: blen_def)

lemma einsum_ij_ij_i_Inr:
  "einsum_ij_ij_i a b = Inr r \<Longrightarrow> np_broadcast vdot a b = Inr r"
  by (auto simp: einsum_ij_ij_i_def split: if_splits)

lemma einsum_ijk_ik_ij_Inr:
  "einsum_ijk_ik_ij g b = Inr r \<Longrightarrow>
     \<exists>c. g = GCov c \<and> np_broadcast (\<lambda>m v. map (\<lambda>row. vdot row v) m) c b = Inr r"
  by (cases g) (auto simp: einsum_ijk_ik_ij_def split: if_splits)

lemma gvar_take_GCov:
  "gvar_take gv idx = Inr (GCov c) \<Longrightarrow>
     \<exists>covs. gv = GCov covs \<and> c = map ((!) covs) idx \<and> (\<forall>i\<in>set idx. i < length covs)"
  by (cases gv) (auto simp: gvar_take_def ebind_Inr_iff dest: np_take_Inr)

lemma compute_common_neighs_cached:
  assumes "compute_common_neighs K s = Inr s1" and "nind_list s = Some nind"
  shows "\<exists>cn. s1 = s\<lparr>common_neighs := Some cn\<rparr>"
  using assms by (auto simp: compute_common_neighs_def ebind_Inr_iff need_Inr_iff)

lemma chi_auto_Inr:
  assumes "chi_auto cn k1 k2 = Inr chis"
  shows "length chis = blen (length (map2 (+) k1 k2)) (length cn)"
    and "bvalid chis n \<Longrightarrow>
           bvalid cn n \<and> bvalid (map2 (+) k1 k2) n \<and>
           bnth chis n = real_of_int (bnth cn n)
                           / real_of_int (bnth (map2 (+) k1 k2) n - bnth cn n)"
proof -
  from assms obtain den where
    den: "np_broadcast (\<lambda>kk c. kk - c) (map2 (+) k1 k2) cn = Inr den"
    and chis: "np_broadcast (\<lambda>c dn. real_of_int c / real_of_int dn) cn den = Inr chis"
    by (auto simp: chi_auto_def ebind_Inr_iff)
  from np_broadcast_length [OF den] np_broadcast_length [OF chis]
  show "length chis = blen (length (map2 (+) k1 k2)) (length cn)"
    by (simp add: blen_absorb)
  assume v: "bvalid chis n"
  note c = bnth_broadcast [OF chis v]
  note d = bnth_broadcast [OF den c(3)]
  from c d show "bvalid cn n \<and> bvalid (map2 (+) k1 k2) n \<and>
           bnth chis n = real_of_int (bnth cn n)
                           / real_of_int (bnth (map2 (+) k1 k2) n - bnth cn n)"
    by simp
qed

lemma semisum_chi_Inr:
  assumes "semisum_chi K chi k1 k2 s = Inr (s3, chiv)" and "nind_list s = Some nind"
  shows "nind_list s3 = Some nind \<and> kstar s3 = kstar s \<and> grads s3 = grads s \<and>
         grads_var s3 = grads_var s \<and> neigh_vector_diffs s3 = neigh_vector_diffs s \<and>
         (case chi of
            ChiAuto \<Rightarrow> \<exists>cn chis. common_neighs s3 = Some cn \<and> chiv = ChiArray chis \<and>
                         chi_auto cn k1 k2 = Inr chis
          | ChiNum c \<Rightarrow> 0 \<le> c \<and> c \<le> 1 \<and> chiv = ChiScalar c \<and> s3 = s)"
proof (cases chi)
  case ChiAuto
  with assms(1) obtain s1 cn chis where
    s1: "(if common_neighs s = None then compute_common_neighs K s else Inr s) = Inr s1"
    and cn: "common_neighs s1 = Some cn" and ca: "chi_auto cn k1 k2 = Inr chis"
    and s3: "s3 = s1" and chiv: "chiv = ChiArray chis"
    by (auto simp: semisum_chi_def ebind_Inr_iff need_Inr_iff)
  from s1 assms(2) have "s1 = s \<or> (\<exists>c. s1 = s\<lparr>common_neighs := Some c\<rparr>)"
    by (auto split: if_splits dest: compute_common_neighs_cached)
  with assms(2) have f: "nind_list s1 = Some nind" "kstar s1 = kstar s" "grads s1 = grads s"
    "grads_var s1 = grads_var s" "neigh_vector_diffs s1 = neigh_vector_diffs s"
    by auto
  with cn ca s3 chiv ChiAuto show ?thesis by simp
next
  case (ChiNum c)
  with assms show ?thesis by (auto simp: semisum_chi_def split: if_splits)
qed

lemma semisum_var_Inr:
  assumes fv: "semisum_var vari varj chiv = Inr fv" and len: "length vari = length varj"
  shows "length fv = (case chiv of ChiScalar c \<Rightarrow> length vari
                                 | ChiArray cs \<Rightarrow> blen (length vari) (length cs))"
    and "n < length fv \<Longrightarrow>
           bvalid vari n \<and> bvalid varj n \<and> (\<forall>cs. chiv = ChiArray cs \<longrightarrow> bvalid cs n) \<and>
           fv ! n = 0.25 * (bnth vari n + bnth varj n
                            + 2 * chi_at chiv n * sqrt (bnth vari n * bnth varj n))"
proof -
  from fv obtain t1 t2 t3 t4 where
    t1: "np_broadcast (+) vari varj = Inr t1"
    and t2: "np_broadcast (\<lambda>vi vj. sqrt (vi * vj)) vari varj = Inr t2"
    and t3: "(case chiv of
                ChiScalar c \<Rightarrow> Inr (map (\<lambda>t. 2 * c * t) t2)
              | ChiArray cs \<Rightarrow> np_broadcast (\<lambda>c t. 2 * c * t) cs t2) = Inr t3"
    and t4: "np_broadcast (+) t1 t3 = Inr t4"
    and fve: "fv = map (\<lambda>t. 0.25 * t) t4"
    by (auto simp: semisum_var_def ebind_Inr_iff)
  from np_broadcast_length [OF t1] np_broadcast_length [OF t2] len
  have l1: "length t1 = length vari" and l2: "length t2 = length vari"
    by (simp_all add: blen_same)
  have l3: "length t3 = (case chiv of ChiScalar c \<Rightarrow> length vari
                                    | ChiArray cs \<Rightarrow> blen (length cs) (length vari))"
    and b3: "broadcastable (length vari) (length t3)"
    using t3 l2 np_broadcast_length [OF t4] l1
    by (auto split: chi_val.splits dest: np_broadcast_length)
  from np_broadcast_length [OF t4] l1 l3 b3
  show "length fv = (case chiv of ChiScalar c \<Rightarrow> length vari
                                 | ChiArray cs \<Rightarrow> blen (length vari) (length cs))"
    by (auto simp: fve blen_def broadcastable_def split: chi_val.splits if_splits)
  assume n: "n < length fv"
  then have v4: "bvalid t4 n" by (simp add: fve bvalid_def)
  from n have fvn: "fv ! n = 0.25 * bnth t4 n" by (simp add: fve bnth_less)
  note a4 = bnth_broadcast [OF t4 v4]
  note a1 = bnth_broadcast [OF t1 a4(2)]
  have a3: "bvalid t2 n \<and> (\<forall>cs. chiv = ChiArray cs \<longrightarrow> bvalid cs n) \<and>
            bnth t3 n = 2 * chi_at chiv n * bnth t2 n"
  proof (cases chiv)
    case (ChiScalar c)
    with t3 have e: "t3 = map (\<lambda>t. 2 * c * t) t2" by simp
    with a4(3) have "bvalid t2 n" by (simp add: bvalid_map)
    with e ChiScalar show ?thesis by (simp add: bnth_map chi_at_def)
  next
    case (ChiArray cs)
    with t3 have e: "np_broadcast (\<lambda>c t. 2 * c * t) cs t2 = Inr t3" by simp
    from bnth_broadcast [OF e a4(3)] ChiArray show ?thesis by (simp add: chi_at_def)
  qed
  then have a2: "bnth t2 n = sqrt (bnth vari n * bnth varj n)"
    using bnth_broadcast(1) [OF t2] by blast
  from fvn a4(1) a1 a3 a2
  show "bvalid vari n \<and> bvalid varj n \<and> (\<forall>cs. chiv = ChiArray cs \<longrightarrow> bvalid cs n) \<and>
           fv ! n = 0.25 * (bnth vari n + bnth varj n
                            + 2 * chi_at chiv n * sqrt (bnth vari n * bnth varj n))"
    by simp
qed

lemma semisum_var_scalar:
  "semisum_var vari varj (ChiScalar c0) = Inr fv0 \<Longrightarrow>
     \<exists>fv. semisum_var vari varj (ChiScalar c) = Inr fv"
  by (auto simp: semisum_var_def ebind_Inr_iff np_broadcast_def split: if_splits)

lemma semisum_result:
  assumes run: "compute_deltaFs_grads_semisum K chi s = Inr s'"
  shows "\<exists>s1 s2 s3 nind ks k1 k2 g g1 g2 gv g_var1 g_var2 chiv vd gd ci vari cj varj fv.
      ensure_vector_diffs K s = Inr s1 \<and>
      ensure_covmat_grads K s1 = Inr s2 \<and>
      nind_list s2 = Some nind \<and> kstar s2 = Some ks \<and>
      np_take ks (map fst nind) = Inr k1 \<and> np_take ks (map snd nind) = Inr k2 \<and>
      grads s2 = Some g \<and>
      np_take g (map fst nind) = Inr g1 \<and> np_take g (map snd nind) = Inr g2 \<and>
      grads_var s2 = Some gv \<and>
      gvar_take gv (map fst nind) = Inr g_var1 \<and> gvar_take gv (map snd nind) = Inr g_var2 \<and>
      semisum_chi K chi k1 k2 s2 = Inr (s3, chiv) \<and>
      neigh_vector_diffs s3 = Some vd \<and>
      einsum_ij_ij_i (map2 (map2 (+)) g1 g2) vd = Inr gd \<and>
      einsum_ijk_ik_ij g_var1 vd = Inr ci \<and> einsum_ij_ij_i vd ci = Inr vari \<and>
      einsum_ijk_ik_ij g_var2 vd = Inr cj \<and> einsum_ij_ij_i vd cj = Inr varj \<and>
      semisum_var vari varj chiv = Inr fv \<and>
      s' = s3\<lparr>Fij_array := Some (map ((*) (1 / 2)) gd), Fij_var_array := Some fv\<rparr>"
  using run
  by (clarsimp simp: compute_deltaFs_grads_semisum_def ebind_Inr_iff need_Inr_iff
      split: option.splits prod.splits)
    ((intro exI conjI; (assumption | rule refl))?)

lemma semisum_values:
  assumes run: "compute_deltaFs_grads_semisum K chi s = Inr s'"
  shows "\<exists>nind ks g covs vd F FV.
         nind_list s' = Some nind \<and> kstar s' = Some ks \<and> grads s' = Some g \<and>
         grads_var s' = Some (GCov covs) \<and> neigh_vector_diffs s' = Some vd \<and>
         Fij_array s' = Some F \<and> Fij_var_array s' = Some FV \<and>
         length F = blen (length nind) (length vd) \<and>
         (\<forall>n<length F.
            bnth nind n \<in> set nind \<and> bnth vd n \<in> set vd \<and>
            fst (bnth nind n) < length g \<and> snd (bnth nind n) < length g \<and>
            F ! n = 0.5 * vdot (map2 (+) (g ! fst (bnth nind n)) (g ! snd (bnth nind n)))
                           (bnth vd n)) \<and>
         (\<exists>chiv.
            (case chi of
               ChiAuto \<Rightarrow>
                 (\<exists>cn chis. common_neighs s' = Some cn \<and> chiv = ChiArray chis \<and>
                    length chis = blen (length nind) (length cn) \<and>
                    length FV = blen (length F) (length chis) \<and>
                    (\<forall>n<length FV.
                       bnth cn n \<in> set cn \<and>
                       bnth chis n = real_of_int (bnth cn n)
                          / real_of_int (ks ! fst (bnth nind n) + ks ! snd (bnth nind n)
                                         - bnth cn n)))
             | ChiNum c \<Rightarrow> 0 \<le> c \<and> c \<le> 1 \<and> chiv = ChiScalar c \<and> length FV = length F) \<and>
            (\<forall>n<length FV.
               bnth nind n \<in> set nind \<and> bnth vd n \<in> set vd \<and>
               fst (bnth nind n) < length covs \<and> snd (bnth nind n) < length covs \<and>
               fst (bnth nind n) < length ks \<and> snd (bnth nind n) < length ks \<and>
               FV ! n =
                 0.25 * (quad_form (covs ! fst (bnth nind n)) (bnth vd n)
                         + quad_form (covs ! snd (bnth nind n)) (bnth vd n)
                         + 2 * chi_at chiv n
                             * sqrt (quad_form (covs ! fst (bnth nind n)) (bnth vd n)
                                     * quad_form (covs ! snd (bnth nind n)) (bnth vd n)))))"
proof -
  from semisum_result [OF run] obtain s2 s3 nind ks k1 k2 g g1 g2 gv g_var1 g_var2
      chiv vd gd ci vari cj varj fv where
    nind: "nind_list s2 = Some nind" and ks: "kstar s2 = Some ks"
    and k1: "np_take ks (map fst nind) = Inr k1" and k2: "np_take ks (map snd nind) = Inr k2"
    and g: "grads s2 = Some g"
    and g1: "np_take g (map fst nind) = Inr g1" and g2: "np_take g (map snd nind) = Inr g2"
    and gv: "grads_var s2 = Some gv"
    and gv1: "gvar_take gv (map fst nind) = Inr g_var1"
    and gv2: "gvar_take gv (map snd nind) = Inr g_var2"
    and chi: "semisum_chi K chi k1 k2 s2 = Inr (s3, chiv)"
    and vd: "neigh_vector_diffs s3 = Some vd"
    and gd0: "einsum_ij_ij_i (map2 (map2 (+)) g1 g2) vd = Inr gd"
    and ci0: "einsum_ijk_ik_ij g_var1 vd = Inr ci" and vari0: "einsum_ij_ij_i vd ci = Inr vari"
    and cj0: "einsum_ijk_ik_ij g_var2 vd = Inr cj" and varj0: "einsum_ij_ij_i vd cj = Inr varj"
    and fv: "semisum_var vari varj chiv = Inr fv"
    and s': "s' = s3\<lparr>Fij_array := Some (map ((*) (1 / 2)) gd), Fij_var_array := Some fv\<rparr>"
    by blast
  note c3 = semisum_chi_Inr [OF chi nind]
  from np_take_Inr [OF k1] np_take_Inr [OF k2] np_take_Inr [OF g1] np_take_Inr [OF g2]
  have k1e: "k1 = map ((!) ks) (map fst nind)" and k2e: "k2 = map ((!) ks) (map snd nind)"
    and g1e: "g1 = map ((!) g) (map fst nind)" and g2e: "g2 = map ((!) g) (map snd nind)"
    and kb: "\<forall>p\<in>set nind. fst p < length ks \<and> snd p < length ks"
    and gb: "\<forall>p\<in>set nind. fst p < length g \<and> snd p < length g"
    by auto
  have Ge: "map2 (map2 (+)) g1 g2 = map (\<lambda>p. map2 (+) (g ! fst p) (g ! snd p)) nind"
    by (simp add: g1e g2e zip_map_map zip_same_conv_map o_def)
  have k12e: "map2 (+) k1 k2 = map (\<lambda>p. ks ! fst p + ks ! snd p) nind"
    by (simp add: k1e k2e zip_map_map zip_same_conv_map o_def)
  note gd = einsum_ij_ij_i_Inr [OF gd0, unfolded Ge]
  from einsum_ijk_ik_ij_Inr [OF ci0] obtain c1 where
    c1: "g_var1 = GCov c1" and ci: "np_broadcast (\<lambda>m v. map (\<lambda>row. vdot row v) m) c1 vd = Inr ci"
    by blast
  from einsum_ijk_ik_ij_Inr [OF cj0] obtain c2 where
    c2: "g_var2 = GCov c2" and cj: "np_broadcast (\<lambda>m v. map (\<lambda>row. vdot row v) m) c2 vd = Inr cj"
    by blast
  note vari = einsum_ij_ij_i_Inr [OF vari0]
  note varj = einsum_ij_ij_i_Inr [OF varj0]
  from gvar_take_GCov [OF gv1 [unfolded c1]] obtain covs where
    covs: "gv = GCov covs" and c1e: "c1 = map (\<lambda>p. covs ! fst p) nind"
    and cb1: "\<forall>p\<in>set nind. fst p < length covs"
    by (auto simp: o_def)
  from gvar_take_GCov [OF gv2 [unfolded c2]] covs have
    c2e: "c2 = map (\<lambda>p. covs ! snd p) nind" and cb2: "\<forall>p\<in>set nind. snd p < length covs"
    by (auto simp: o_def)
  note lgd = np_broadcast_length [OF gd]
  note lci = np_broadcast_length [OF ci]
  note lcj = np_broadcast_length [OF cj]
  from lgd have br: "broadcastable (length nind) (length vd)"
    and lengd: "length gd = blen (length nind) (length vd)"
    by simp_all
  from lci lcj c1e c2e have lenc: "length ci = blen (length nind) (length vd)"
    "length cj = blen (length nind) (length vd)"
    by simp_all
  from np_broadcast_length [OF vari] np_broadcast_length [OF varj] lenc br
  have lenv: "length vari = blen (length nind) (length vd)"
    "length varj = blen (length nind) (length vd)"
    by (simp_all add: blen_absorb)
  then have leq: "length vari = length varj" by simp
  note sv = semisum_var_Inr [OF fv leq]
  have fields: "nind_list s' = Some nind" "kstar s' = Some ks" "grads s' = Some g"
    "grads_var s' = Some (GCov covs)" "neigh_vector_diffs s' = Some vd"
    "Fij_array s' = Some (map ((*) (1 / 2)) gd)" "Fij_var_array s' = Some fv"
    using c3 ks g gv covs vd by (simp_all add: s')
  have cns: "common_neighs s' = common_neighs s3" by (simp add: s')
  have lF: "length (map ((*) (1 / 2)) gd) = blen (length nind) (length vd)"
    using lengd by simp
  have ptF: "\<forall>n<length (map ((*) (1 / 2)) gd).
            bnth nind n \<in> set nind \<and> bnth vd n \<in> set vd \<and>
            fst (bnth nind n) < length g \<and> snd (bnth nind n) < length g \<and>
            map ((*) (1 / 2)) gd ! n
              = 0.5 * vdot (map2 (+) (g ! fst (bnth nind n)) (g ! snd (bnth nind n)))
                           (bnth vd n)"
  proof (intro allI impI)
    fix n assume "n < length (map ((*) (1 / 2)) gd)"
    then have n: "n < length gd" by simp
    note b = bnth_broadcast [OF gd bvalid_less [OF n]]
    from b(2) have vn: "bvalid nind n" by (simp add: bvalid_map)
    from b(1) vn have gdn: "gd ! n
        = vdot (map2 (+) (g ! fst (bnth nind n)) (g ! snd (bnth nind n))) (bnth vd n)"
      using n by (simp add: bnth_map bnth_less)
    from bnth_mem [OF vn] bnth_mem [OF b(3)] gb n gdn
    show "bnth nind n \<in> set nind \<and> bnth vd n \<in> set vd \<and>
            fst (bnth nind n) < length g \<and> snd (bnth nind n) < length g \<and>
            map ((*) (1 / 2)) gd ! n
              = 0.5 * vdot (map2 (+) (g ! fst (bnth nind n)) (g ! snd (bnth nind n)))
                           (bnth vd n)"
      by simp
  qed
  have ptV: "\<forall>n<length fv.
               bnth nind n \<in> set nind \<and> bnth vd n \<in> set vd \<and>
               fst (bnth nind n) < length covs \<and> snd (bnth nind n) < length covs \<and>
               fst (bnth nind n) < length ks \<and> snd (bnth nind n) < length ks \<and>
               fv ! n =
                 0.25 * (quad_form (covs ! fst (bnth nind n)) (bnth vd n)
                         + quad_form (covs ! snd (bnth nind n)) (bnth vd n)
                         + 2 * chi_at chiv n
                             * sqrt (quad_form (covs ! fst (bnth nind n)) (bnth vd n)
                                     * quad_form (covs ! snd (bnth nind n)) (bnth vd n)))"
  proof (intro allI impI)
    fix n assume n: "n < length fv"
    from sv(2) [OF n] have vi: "bvalid vari n" and vj: "bvalid varj n"
      and fvn: "fv ! n = 0.25 * (bnth vari n + bnth varj n
                            + 2 * chi_at chiv n * sqrt (bnth vari n * bnth varj n))"
      by simp_all
    note bi = bnth_broadcast [OF vari vi]
    note bci = bnth_broadcast [OF ci bi(3)]
    note bj = bnth_broadcast [OF varj vj]
    note bcj = bnth_broadcast [OF cj bj(3)]
    from bci(2) have vn: "bvalid nind n" by (simp add: c1e bvalid_map)
    from bi(1) bci(1) vn have e1: "bnth vari n = quad_form (covs ! fst (bnth nind n)) (bnth vd n)"
      by (simp add: c1e bnth_map quad_form_def)
    from bj(1) bcj(1) vn have e2: "bnth varj n = quad_form (covs ! snd (bnth nind n)) (bnth vd n)"
      by (simp add: c2e bnth_map quad_form_def)
    from bnth_mem [OF vn] bnth_mem [OF bi(2)] cb1 cb2 kb fvn
    show "bnth nind n \<in> set nind \<and> bnth vd n \<in> set vd \<and>
               fst (bnth nind n) < length covs \<and> snd (bnth nind n) < length covs \<and>
               fst (bnth nind n) < length ks \<and> snd (bnth nind n) < length ks \<and>
               fv ! n =
                 0.25 * (quad_form (covs ! fst (bnth nind n)) (bnth vd n)
                         + quad_form (covs ! snd (bnth nind n)) (bnth vd n)
                         + 2 * chi_at chiv n
                             * sqrt (quad_form (covs ! fst (bnth nind n)) (bnth vd n)
                                     * quad_form (covs ! snd (bnth nind n)) (bnth vd n)))"
      unfolding e1 e2 by simp
  qed
  have chi_part: "case chi of
               ChiAuto \<Rightarrow>
                 (\<exists>cn chis. common_neighs s' = Some cn \<and> chiv = ChiArray chis \<and>
                    length chis = blen (length nind) (length cn) \<and>
                    length fv = blen (length (map ((*) (1 / 2)) gd)) (length chis) \<and>
                    (\<forall>n<length fv.
                       bnth cn n \<in> set cn \<and>
                       bnth chis n = real_of_int (bnth cn n)
                          / real_of_int (ks ! fst (bnth nind n) + ks ! snd (bnth nind n)
                                         - bnth cn n)))
             | ChiNum c \<Rightarrow> 0 \<le> c \<and> c \<le> 1 \<and> chiv = ChiScalar c \<and>
                 length fv = length (map ((*) (1 / 2)) gd)"
  proof (cases chi)
    case ChiAuto
    with c3 obtain cn chis where cn: "common_neighs s3 = Some cn"
      and chiv: "chiv = ChiArray chis" and ca: "chi_auto cn k1 k2 = Inr chis"
      by auto
    note a = chi_auto_Inr [OF ca, unfolded k12e]
    from a(1) have lchis: "length chis = blen (length nind) (length cn)" by simp
    from sv(1) chiv lenv lengd
    have lfv: "length fv = blen (length (map ((*) (1 / 2)) gd)) (length chis)" by simp
    have "\<forall>n<length fv.
            bnth cn n \<in> set cn \<and>
            bnth chis n = real_of_int (bnth cn n)
               / real_of_int (ks ! fst (bnth nind n) + ks ! snd (bnth nind n) - bnth cn n)"
    proof (intro allI impI)
      fix n assume n: "n < length fv"
      from sv(2) [OF n] chiv have vc: "bvalid chis n" by simp
      from a(2) [OF vc] have vcn: "bvalid cn n" and vn: "bvalid nind n"
        and e: "bnth chis n = real_of_int (bnth cn n)
                 / real_of_int (bnth (map (\<lambda>p. ks ! fst p + ks ! snd p) nind) n - bnth cn n)"
        by (simp_all add: bvalid_map)
      from e vn bnth_mem [OF vcn]
      show "bnth cn n \<in> set cn \<and>
            bnth chis n = real_of_int (bnth cn n)
               / real_of_int (ks ! fst (bnth nind n) + ks ! snd (bnth nind n) - bnth cn n)"
        by (simp add: bnth_map)
    qed
    with cn cns chiv lchis lfv ChiAuto show ?thesis by simp
  next
    case (ChiNum c)
    with c3 sv(1) lenv lengd show ?thesis by simp
  qed
  show ?thesis
    apply (rule exI [of _ nind], rule exI [of _ ks], rule exI [of _ g], rule exI [of _ covs])
    apply (rule exI [of _ vd], rule exI [of _ "map ((*) (1 / 2)) gd"], rule exI [of _ fv])
    apply (intro conjI)
    apply (rule fields lF ptF)+
    apply (rule exI [of _ chiv])
    apply (intro conjI)
    apply (rule chi_part ptV)+
    done
qed

lemma semisum_accepts:
  assumes run0: "compute_deltaFs_grads_semisum K (ChiNum c0) s = Inr s0"
    and c: "0 \<le> c" "c \<le> 1"
  shows "\<exists>s1. compute_deltaFs_grads_semisum K (ChiNum c) s = Inr s1"
proof -
  from semisum_result [OF run0] obtain s1 s2 s3 nind ks k1 k2 g g1 g2 gv g_var1 g_var2
      chiv vd gd ci vari cj varj fv where
    f: "ensure_vector_diffs K s = Inr s1"
    "ensure_covmat_grads K s1 = Inr s2"
    "nind_list s2 = Some nind" "kstar s2 = Some ks"
    "np_take ks (map fst nind) = Inr k1" "np_take ks (map snd nind) = Inr k2"
    "grads s2 = Some g"
    "np_take g (map fst nind) = Inr g1" "np_take g (map snd nind) = Inr g2"
    "grads_var s2 = Some gv"
    "gvar_take gv (map fst nind) = Inr g_var1" "gvar_take gv (map snd nind) = Inr g_var2"
    and chi: "semisum_chi K (ChiNum c0) k1 k2 s2 = Inr (s3, chiv)"
    and e: "neigh_vector_diffs s3 = Some vd"
    "einsum_ij_ij_i (map2 (map2 (+)) g1 g2) vd = Inr gd"
    "einsum_ijk_ik_ij g_var1 vd = Inr ci" "einsum_ij_ij_i vd ci = Inr vari"
    "einsum_ijk_ik_ij g_var2 vd = Inr cj" "einsum_ij_ij_i vd cj = Inr varj"
    and fv: "semisum_var vari varj chiv = Inr fv"
    by (elim exE conjE) (rule that; assumption)
  from chi have s3: "s3 = s2" and chiv: "chiv = ChiScalar c0"
    by (auto simp: semisum_chi_def split: if_splits)
  from semisum_var_scalar [OF fv [unfolded chiv], of c] obtain fv' where
    fv': "semisum_var vari varj (ChiScalar c) = Inr fv'"
    by blast
  from c have ok: "(0 \<le> c \<and> c \<le> 1) = True" by simp
  from f e [unfolded s3] fv' show ?thesis
    by (simp add: compute_deltaFs_grads_semisum_def ebind_def need_def semisum_chi_def ok)
qed

lemma sqrt64: "sqrt 64 = 8"
  using real_sqrt_abs [of 8] by simp

lemma sqrt4: "sqrt 4 = 2"
  using real_sqrt_abs [of 2] by simp

lemmas semisum_eval =
  compute_deltaFs_grads_semisum_def ensure_vector_diffs_def ensure_covmat_grads_def
  semisum_chi_def chi_auto_def semisum_var_def einsum_ij_ij_i_def einsum_ijk_ik_ij_def
  np_broadcast_def broadcastable_def blen_def bnth_def
  gvar_take_def vdot_def demo_graph_def demo_session_def need_def ebind_def
  upt_rec eval_nat_numeral

lemma demo_run_semisum:
  "compute_deltaFs_grads_semisum demo_kernels ChiAuto demo_graph = Inr demo_ready"
  by (simp add: semisum_eval demo_ready_def sqrt64 sqrt4)

lemma demo_run_semisum_zero:
  "\<exists>s0. compute_deltaFs_grads_semisum demo_kernels (ChiNum 0) demo_graph = Inr s0"
  by (simp add: semisum_eval)

lemma demo_run_semisum_half:
  "compute_deltaFs_grads_semisum demo_kernels (ChiNum (1 / 2)) demo_graph =
     Inr (demo_graph\<lparr>Fij_array := Some [3 / 2, - 3 / 2, - 5],
                     Fij_var_array := Some [7 / 4, 7 / 4, 7]\<rparr>)"
  by (simp add: semisum_eval sqrt64 sqrt4)

lemma demo_run_semisum_broadcast:
  "compute_deltaFs_grads_semisum demo_kernels ChiAuto (demo_graph\<lparr>common_neighs := Some [2]\<rparr>) =
     Inr (demo_graph\<lparr>common_neighs := Some [2],
                     Fij_array := Some [3 / 2, - 3 / 2, - 5],
                     Fij_var_array := Some [9 / 4, 9 / 4, 9]\<rparr>)"
  by (simp add: semisum_eval sqrt64 sqrt4)





































section \<open>The constructor\<close>

text \<open>
  C9. A call of \<open>Base.__init__\<close> whose \<open>distances\<close> argument is a pair (distance
  matrix, index matrix) never returns an object. When the part of the constructor before
  it succeeds (the same call without distances returns) and the two matrices have the same
  number of rows, the exception is the NameError raised for the undefined \<open>is_ndarray\<close>.
\<close>

theorem Base_init_tuple_NameError:
  "(\<forall>b. Base_init f coordinates (Some (DistTuple d0 d1)) mk rip \<noteq> Inr b) \<and>
   (shape0 d0 = shape0 d1 \<longrightarrow> (\<exists>b1. Base_init f coordinates None mk rip = Inr b1) \<longrightarrow>
      Base_init f coordinates (Some (DistTuple d0 d1)) mk rip = Inl NameError)"
  by (auto simp: Base_init_def init_distances_def ebind_def Let_def
      split: sum.splits option.splits)

theorem Base_init_tuple_NameError_witness:
  "shape0 [[0, 1], [0, 1 :: real]] = shape0 [[0, 1], [1, 0 :: nat]] \<and>
   (\<exists>b1. Base_init (\<lambda>d k. ([], [])) None None None True = Inr b1) \<and>
   Base_init (\<lambda>d k. ([], [])) None (Some (DistTuple [[0, 1], [0, 1]] [[0, 1], [1, 0]])) None True
     = Inl NameError"
proof -
  have a: "shape0 [[0, 1], [0, 1 :: real]] = shape0 [[0, 1], [1, 0 :: nat]]"
    by (simp add: shape0_def)
  have b: "\<exists>b1. Base_init (\<lambda>d k. ([], [])) None None None True = Inr b1"
    by (simp add: Base_init_def ebind_def)
  from Base_init_tuple_NameError
    [of "\<lambda>d k. ([], [])" None "[[0, 1], [0, 1]]" "[[0, 1], [1, 0]]" None True] a b
  show ?thesis by blast
qed

text \<open>
  C10. With \<open>remove_identical_points\<close> the constructor is meant to keep one copy of each
  point. \<open>np.unique\<close> is called without \<open>axis\<close>, so the indices it returns point into
  the flattened array and not at rows: for the two identical points \<open>(1, 2)\<close> and
  \<open>(1, 2)\<close> the indices are \<open>0\<close> and \<open>1\<close>, both rows are kept and \<open>Nele\<close> is 2;
  for the two distinct points \<open>(0, 1)\<close> and \<open>(2, 3)\<close> the indices are \<open>0, 1, 2, 3\<close>
  and selecting rows 2 and 3 raises IndexError.
\<close>

theorem Base_init_keeps_identical_points:
  "Base_init f (Some [[1, 2], [1, 2]]) None None True =
     Inr \<lparr>base_X = Some [[1, 2], [1, 2]], base_maxk = Some 1, base_dims = Some 2,
          base_Nele = Some 2, base_distances = None, base_dist_indices = None\<rparr> \<and>
   has_identical_points [[1, 2], [1, 2]] \<and>
   Base_init f (Some [[0, 1], [2, 3]]) None None True = Inl IndexError"
  by (simp add: Base_init_def init_coordinates_def np_unique_index_def ebind_def
      shape0_def shape1_def has_identical_points_def)

section \<open>Resetting \<open>k*\<close>\<close>

text \<open>
  C6, as the code has it. When \<open>set_kstar(k)\<close> returns, the attribute \<open>kstar\<close> is
  the array \<open>k\<close> as it is, or the scalar \<open>k\<close> in its 64-bit form repeated \<open>N\<close>
  times: \<open>k\<close> itself below \<open>2\<^sup>6\<^sup>3\<close>, and \<open>k - 2\<^sup>6\<^sup>4\<close> from there on. The
  fourteen caches \<open>neigh_vector_diffs\<close>, \<open>nind_list\<close>, \<open>nind_iptr\<close>,
  \<open>nind_mat\<close>, \<open>common_neighs\<close>, \<open>dc\<close>, \<open>log_den\<close>, \<open>log_den_err\<close>,
  \<open>grads\<close>, \<open>grads_var\<close>, \<open>Fij_list\<close>, \<open>Fij_var_list\<close>, \<open>Fij_array\<close> and
  \<open>Fij_var_array\<close> are \<open>None\<close>, and every other attribute is what it was. The call
  returns for every array and for every scalar from \<open>-2\<^sup>6\<^sup>3\<close> to below \<open>2\<^sup>6\<^sup>4\<close>;
  for any other scalar, and at least one point, it raises OverflowError.
\<close>

theorem set_kstar_effect:
  "(set_kstar k s = Inr s' \<longrightarrow>
      kstar s' = Some (case k of
                         KArray a \<Rightarrow> a
                       | KScalar c \<Rightarrow> replicate (N s) (if c < 2 ^ 63 then c else c - 2 ^ 64)) \<and>
      neigh_vector_diffs s' = None \<and> nind_list s' = None \<and> nind_iptr s' = None \<and>
      nind_mat s' = None \<and> common_neighs s' = None \<and> dc s' = None \<and> log_den s' = None \<and>
      log_den_err s' = None \<and> grads s' = None \<and> grads_var s' = None \<and>
      Fij_list s' = None \<and> Fij_var_list s' = None \<and> Fij_array s' = None \<and>
      Fij_var_array s' = None \<and>
      N s' = N s \<and> maxk s' = maxk s \<and> dims s' = dims s \<and>
      intrinsic_dim s' = intrinsic_dim s \<and> X s' = X s \<and> distances s' = distances s \<and>
      dist_indices s' = dist_indices s \<and> period s' = period s \<and>
      check_grads_covmat s' = check_grads_covmat s \<and> A s' = A s \<and> B s' = B s) \<and>
   (\<forall>a. k = KArray a \<longrightarrow> (\<exists>s1. set_kstar k s = Inr s1 \<and> kstar s1 = Some a)) \<and>
   (\<forall>c. k = KScalar c \<longrightarrow> - (2 ^ 63) \<le> c \<longrightarrow> c < 2 ^ 63 \<longrightarrow>
      (\<exists>s1. set_kstar k s = Inr s1 \<and> kstar s1 = Some (replicate (N s) c))) \<and>
   (\<forall>c. k = KScalar c \<longrightarrow> 2 ^ 63 \<le> c \<longrightarrow> c < 2 ^ 64 \<longrightarrow>
      (\<exists>s1. set_kstar k s = Inr s1 \<and> kstar s1 = Some (replicate (N s) (c - 2 ^ 64)))) \<and>
   (\<forall>c. k = KScalar c \<longrightarrow> c < - (2 ^ 63) \<or> 2 ^ 64 \<le> c \<longrightarrow> 0 < N s \<longrightarrow>
      set_kstar k s = Inl OverflowError)"
proof -
  have p1: "set_kstar k s = Inr s' \<longrightarrow>
      kstar s' = Some (case k of
                         KArray a \<Rightarrow> a
                       | KScalar c \<Rightarrow> replicate (N s) (if c < 2 ^ 63 then c else c - 2 ^ 64)) \<and>
      neigh_vector_diffs s' = None \<and> nind_list s' = None \<and> nind_iptr s' = None \<and>
      nind_mat s' = None \<and> common_neighs s' = None \<and> dc s' = None \<and> log_den s' = None \<and>
      log_den_err s' = None \<and> grads s' = None \<and> grads_var s' = None \<and>
      Fij_list s' = None \<and> Fij_var_list s' = None \<and> Fij_array s' = None \<and>
      Fij_var_array s' = None \<and>
      N s' = N s \<and> maxk s' = maxk s \<and> dims s' = dims s \<and>
      intrinsic_dim s' = intrinsic_dim s \<and> X s' = X s \<and> distances s' = distances s \<and>
      dist_indices s' = dist_indices s \<and> period s' = period s \<and>
      check_grads_covmat s' = check_grads_covmat s \<and> A s' = A s \<and> B s' = B s"
  proof
    assume run: "set_kstar k s = Inr s'"
    from set_kstar_Inr [OF run] obtain ks where
      ks: "(case k of KArray a \<Rightarrow> Inr a | KScalar c \<Rightarrow> np_full_int (N s) c) = Inr ks"
      and s': "s' = s\<lparr>kstar := Some ks, neigh_vector_diffs := None, nind_list := None,
                    nind_iptr := None, nind_mat := None, common_neighs := None, dc := None,
                    log_den := None, log_den_err := None, grads := None, grads_var := None,
                    Fij_list := None, Fij_var_list := None, Fij_array := None,
                    Fij_var_array := None\<rparr>"
      by blast
    from ks have "ks = (case k of
                          KArray a \<Rightarrow> a
                        | KScalar c \<Rightarrow> replicate (N s) (if c < 2 ^ 63 then c else c - 2 ^ 64))"
      by (cases k) (auto dest: np_full_int_Inr simp: int64_wrap_def)
    with s' show
       "kstar s' = Some (case k of
                           KArray a \<Rightarrow> a
                         | KScalar c \<Rightarrow> replicate (N s) (if c < 2 ^ 63 then c else c - 2 ^ 64)) \<and>
        neigh_vector_diffs s' = None \<and> nind_list s' = None \<and> nind_iptr s' = None \<and>
        nind_mat s' = None \<and> common_neighs s' = None \<and> dc s' = None \<and> log_den s' = None \<and>
        log_den_err s' = None \<and> grads s' = None \<and> grads_var s' = None \<and>
        Fij_list s' = None \<and> Fij_var_list s' = None \<and> Fij_array s' = None \<and>
        Fij_var_array s' = None \<and>
        N s' = N s \<and> maxk s' = maxk s \<and> dims s' = dims s \<and>
        intrinsic_dim s' = intrinsic_dim s \<and> X s' = X s \<and> distances s' = distances s \<and>
        dist_indices s' = dist_indices s \<and> period s' = period s \<and>
        check_grads_covmat s' = check_grads_covmat s \<and> A s' = A s \<and> B s' = B s"
      by simp
  qed
  have p2: "\<forall>a. k = KArray a \<longrightarrow> (\<exists>s1. set_kstar k s = Inr s1 \<and> kstar s1 = Some a)"
    by (simp add: set_kstar_def ebind_def)
  have p3: "\<forall>c. k = KScalar c \<longrightarrow> - (2 ^ 63) \<le> c \<longrightarrow> c < 2 ^ 63 \<longrightarrow>
      (\<exists>s1. set_kstar k s = Inr s1 \<and> kstar s1 = Some (replicate (N s) c))"
    by (simp add: set_kstar_def ebind_def np_full_int_def int64_wrap_def)
  have p4: "\<forall>c. k = KScalar c \<longrightarrow> 2 ^ 63 \<le> c \<longrightarrow> c < 2 ^ 64 \<longrightarrow>
      (\<exists>s1. set_kstar k s = Inr s1 \<and> kstar s1 = Some (replicate (N s) (c - 2 ^ 64)))"
    by (simp add: set_kstar_def ebind_def np_full_int_def int64_wrap_def)
  have p5: "\<forall>c. k = KScalar c \<longrightarrow> c < - (2 ^ 63) \<or> 2 ^ 64 \<le> c \<longrightarrow> 0 < N s \<longrightarrow>
      set_kstar k s = Inl OverflowError"
    by (auto simp: set_kstar_def ebind_def np_full_int_def)
  from p1 p2 p3 p4 p5 show ?thesis by (intro conjI)
qed

theorem set_kstar_effect_witness:
  "(\<exists>s'. set_kstar (KScalar 2) demo_graph = Inr s' \<and> kstar s' = Some [2, 2, 2] \<and>
      nind_list s' = None \<and> grads s' = None \<and> distances s' = distances demo_graph) \<and>
   (\<exists>s'. set_kstar (KArray [1, 2, 1]) demo_graph = Inr s' \<and> kstar s' = Some [1, 2, 1] \<and>
      nind_list s' = None) \<and>
   (\<exists>s'. set_kstar (KScalar (2 ^ 64 - 1)) demo_graph = Inr s' \<and>
      kstar s' = Some [- 1, - 1, - 1]) \<and>
   set_kstar (KScalar (2 ^ 64)) demo_graph = Inl OverflowError"
proof -
  have n: "N demo_graph = 3" "0 < N demo_graph"
    by (simp_all add: demo_graph_def demo_session_def)
  from set_kstar_effect [of "KScalar 2" demo_graph, THEN conjunct2, THEN conjunct2,
      THEN conjunct1, THEN spec, of 2]
  obtain s1 where r1: "set_kstar (KScalar 2) demo_graph = Inr s1" by auto
  from set_kstar_effect [of "KScalar 2" demo_graph s1, THEN conjunct1, THEN mp, OF r1] r1 n
  have c1: "\<exists>s'. set_kstar (KScalar 2) demo_graph = Inr s' \<and> kstar s' = Some [2, 2, 2] \<and>
      nind_list s' = None \<and> grads s' = None \<and> distances s' = distances demo_graph"
    by (simp add: eval_nat_numeral)
  from set_kstar_effect [of "KArray [1, 2, 1]" demo_graph, THEN conjunct2, THEN conjunct1,
      THEN spec, of "[1, 2, 1]"]
  obtain s2 where r2: "set_kstar (KArray [1, 2, 1]) demo_graph = Inr s2" by auto
  from set_kstar_effect [of "KArray [1, 2, 1]" demo_graph s2, THEN conjunct1, THEN mp, OF r2] r2
  have c2: "\<exists>s'. set_kstar (KArray [1, 2, 1]) demo_graph = Inr s' \<and>
      kstar s' = Some [1, 2, 1] \<and> nind_list s' = None"
    by simp
  from set_kstar_effect [of "KScalar (2 ^ 64 - 1)" demo_graph, THEN conjunct2, THEN conjunct2,
      THEN conjunct2, THEN conjunct1, THEN spec, of "2 ^ 64 - 1"] n
  have c3: "\<exists>s'. set_kstar (KScalar (2 ^ 64 - 1)) demo_graph = Inr s' \<and>
      kstar s' = Some [- 1, - 1, - 1]"
    by (simp add: eval_nat_numeral)
  from set_kstar_effect [of "KScalar (2 ^ 64)" demo_graph, THEN conjunct2, THEN conjunct2,
      THEN conjunct2, THEN conjunct2, THEN spec, of "2 ^ 64"] n
  have c4: "set_kstar (KScalar (2 ^ 64)) demo_graph = Inl OverflowError"
    by simp
  from c1 c2 c3 c4 show ?thesis by (intro conjI)
qed

text \<open>
  C6 as stated fails for a scalar that does not fit 64 bits: \<open>set_kstar(2\<^sup>6\<^sup>3)\<close> on the
  three-point session returns, and \<open>kstar\<close> holds \<open>-2\<^sup>6\<^sup>3\<close> three times, not
  \<open>2\<^sup>6\<^sup>3\<close>.
\<close>

theorem set_kstar_wraps:
  "returns (set_kstar (KScalar (2 ^ 63)) demo_session) \<and>
   kstar_of (set_kstar (KScalar (2 ^ 63)) demo_session)
     = Some [- (2 ^ 63), - (2 ^ 63), - (2 ^ 63)] \<and>
   kstar_of (set_kstar (KScalar (2 ^ 63)) demo_session) \<noteq> Some [2 ^ 63, 2 ^ 63, 2 ^ 63]"
  by (simp add: set_kstar_def np_full_int_def int64_wrap_def ebind_def returns_def kstar_of_def
      demo_session_def eval_nat_numeral)

section \<open>The estimators\<close>

text \<open>
  C7. When \<open>compute_density_kNN(k)\<close> returns, for every point \<open>i\<close>, with \<open>r\<close> the
  entry \<open>distances[i, k]\<close>: \<open>log_den[i] = log k - log V - d log r - log N\<close>,
  \<open>log_den_err[i] = 1 / sqrt k\<close> and \<open>dc[i] = r\<close>, where \<open>d\<close> is the supplied
  intrinsic dimension and \<open>V = exp(d/2 log \<pi> - gammaln((d + 2)/2))\<close>, which is
  \<open>\<pi>\<^sup>d\<^sup>/\<^sup>2\<close> divided by the exponential of \<open>gammaln(d/2 + 1)\<close>. The loop reads
  \<open>k\<close> back from the 64-bit array \<open>kstar\<close>: below \<open>2\<^sup>6\<^sup>3\<close>, where every
  neighbour rank lies, that is \<open>k\<close> itself, and from there on it is \<open>k - 2\<^sup>6\<^sup>4\<close>.
\<close>

theorem kNN_formula:
  assumes run: "compute_density_kNN K k s = Inr s'" and i: "i < N s"
  shows "\<exists>d r ld le dcs kk.
           intrinsic_dim s = Some d \<and> kk = (if k < 2 ^ 63 then k else k - 2 ^ 64) \<and>
           np_get2 (distances s) i kk = Inr r \<and>
           log_den s' = Some ld \<and> log_den_err s' = Some le \<and> dc s' = Some dcs \<and>
           length ld = N s \<and> length le = N s \<and> length dcs = N s \<and>
           ld ! i = ln (real_of_int kk) - ln (prefactor_of K d) - d * ln r - ln (real (N s)) \<and>
           le ! i = 1 / sqrt (real_of_int kk) \<and>
           dcs ! i = r \<and>
           prefactor_of K d = exp (d / 2 * ln pi - gammaln K ((d + 2) / 2)) \<and>
           prefactor_of K d = pi powr (d / 2) / exp (gammaln K (d / 2 + 1))"
proof -
  define kk where "kk = (if k < 2 ^ 63 then k else k - 2 ^ 64)"
  then have kk: "int64_wrap k = kk" by (simp add: int64_wrap_def)
  from kNN_result [OF run] obtain d s1 dcs ld le where
    d: "intrinsic_dim s = Some d" and len: "len3 (N s) (dcs, ld, le)"
    and pt: "\<forall>i<N s. kNN_point d (prefactor_of K d) (distances s) (replicate (N s) kk) i
                        (dcs, ld, le)"
    and s': "s' = s1\<lparr>log_den := Some (normalise (N s) ld),
                  log_den_err := Some le, dc := Some dcs\<rparr>"
    unfolding kk by (metis fst_conv snd_conv prod_cases3)
  from pt i obtain r where r: "np_get2 (distances s) i kk = Inr r"
    and v: "dcs ! i = r" "ld ! i = ln (real_of_int kk) - (ln (prefactor_of K d) + d * ln r)"
      "le ! i = 1 / sqrt (real_of_int kk)"
    by (auto simp: kNN_point_def np_at_def np_get_def)
  have pf: "prefactor_of K d = pi powr (d / 2) / exp (gammaln K (d / 2 + 1))"
    by (simp add: prefactor_of_def powr_def exp_diff add_divide_distrib mult.commute)
  have e1: "prefactor_of K d = exp (d / 2 * ln pi - gammaln K ((d + 2) / 2))"
    by (simp add: prefactor_of_def)
  from len i v have ldi: "normalise (N s) ld ! i =
      ln (real_of_int kk) - ln (prefactor_of K d) - d * ln r - ln (real (N s))"
    by (simp add: normalise_def len3_def)
  from s' have f: "log_den s' = Some (normalise (N s) ld)" "log_den_err s' = Some le"
    "dc s' = Some dcs"
    by simp_all
  from len have l: "length (normalise (N s) ld) = N s" "length le = N s" "length dcs = N s"
    by (simp_all add: len3_def normalise_def)
  from d r f l ldi v(3) v(1) e1 pf kk_def show ?thesis by blast
qed

theorem kNN_formula_witness:
  "\<exists>s'. compute_density_kNN demo_kernels 1 demo_session = Inr s' \<and> (0::nat) < N demo_session \<and>
        log_den s' = Some [- ln pi - ln 3, - ln pi - ln 3, - ln pi - 2 * ln 2 - ln 3] \<and>
        log_den_err s' = Some [1, 1, 1] \<and> dc s' = Some [1, 1, 2]"
proof -
  note run = demo_run_kNN
  have i: "0 < N demo_session" by (simp add: demo_session_def)
  from kNN_formula [OF run i] run i show ?thesis by simp
qed

text \<open>
  C2. When \<open>compute_density_PAk\<close> returns, for every point \<open>i\<close> with \<open>k = k*(i)\<close>,
  \<open>r = distances[i, k]\<close> and shell volumes
  \<open>v\<^sub>j = prefactor * (r\<^sub>j\<^sub>+\<^sub>1\<^sup>d - r\<^sub>j\<^sup>d)\<close>: if some \<open>v\<^sub>j\<close> with \<open>j < k\<close> is below
  \<open>1e-300\<close>, \<open>log_den[i]\<close> is \<open>rr = log k - (log prefactor + d log r)\<close> less
  \<open>log N\<close>, and the Newton-Raphson kernel is not used; otherwise it is the kernel's
  result on \<open>rr\<close>, \<open>k\<close>, the \<open>maxk\<close> volumes (zero beyond \<open>k\<close>) and \<open>maxk\<close>,
  less \<open>log N\<close>. The test of point \<open>i\<close> reads row \<open>i\<close> of the distances only.
\<close>

theorem PAk_underflow_fallback:
  assumes run: "compute_density_PAk K s = Inr s'" and i: "i < N s'"
  shows "\<exists>d ks ld k r.
           intrinsic_dim s' = Some d \<and> kstar s' = Some ks \<and> log_den s' = Some ld \<and>
           np_at ks i = Inr k \<and> np_get2 (distances s') i k = Inr r \<and>
           ld ! i =
             (if \<exists>j<nat k. shell_volume (prefactor_of K d) d (distances s') i j < underflow
              then ln (real_of_int k) - (ln (prefactor_of K d) + d * ln r)
              else nrmaxl K (ln (real_of_int k) - (ln (prefactor_of K d) + d * ln r)) k
                     (map (shell_volume (prefactor_of K d) d (distances s') i) [0..<nat k]
                        @ replicate (maxk s' - nat k) 0)
                     (maxk s'))
             - ln (real (N s'))"
proof -
  from PAk_result [OF run] obtain s1 d ks dcs ld le where
    d: "intrinsic_dim s1 = Some d" and ks: "kstar s1 = Some ks"
    and len: "len3 (N s1) (dcs, ld, le)"
    and pt: "\<forall>i<N s1. PAk_point K d (prefactor_of K d) (maxk s1) (distances s1) ks i (dcs, ld, le)"
    and s': "s' = s1\<lparr>log_den := Some (normalise (N s1) ld),
                  log_den_err := Some le, dc := Some dcs\<rparr>"
    by (metis fst_conv snd_conv prod_cases3)
  from s' i have i1: "i < N s1" by simp
  with pt obtain k r where k: "np_at ks i = Inr k" and r: "np_get2 (distances s1) i k = Inr r"
    and v: "ld ! i = PAk_value K d (prefactor_of K d) (maxk s1) (distances s1) i k r"
    by (auto simp: PAk_point_def)
  from len i1 v have v0: "normalise (N s1) ld ! i =
      PAk_value K d (prefactor_of K d) (maxk s1) (distances s1) i k r - ln (real (N s1))"
    by (simp add: normalise_def len3_def)
  from s' have eq: "N s' = N s1" "maxk s' = maxk s1" "distances s' = distances s1"
    by simp_all
  have ldi: "normalise (N s') ld ! i =
      (if \<exists>j<nat k. shell_volume (prefactor_of K d) d (distances s') i j < underflow
       then ln (real_of_int k) - (ln (prefactor_of K d) + d * ln r)
       else nrmaxl K (ln (real_of_int k) - (ln (prefactor_of K d) + d * ln r)) k
              (map (shell_volume (prefactor_of K d) d (distances s') i) [0..<nat k]
                 @ replicate (maxk s' - nat k) 0)
              (maxk s'))
      - ln (real (N s'))"
    unfolding eq using v0 [unfolded PAk_value_def Let_def] .
  from d ks r s' have f: "intrinsic_dim s' = Some d" "kstar s' = Some ks"
    "log_den s' = Some (normalise (N s') ld)" "np_get2 (distances s') i k = Inr r"
    by simp_all
  from f k ldi show ?thesis by blast
qed

theorem PAk_underflow_fallback_witness:
  "\<exists>s'. compute_density_PAk demo_kernels demo_dup = Inr s' \<and> (0::nat) < N s' \<and>
        log_den s' = Some [ln 2 - ln pi - ln 4, ln 2 - ln pi - ln 4, ln 2 - ln pi - ln 4,
                           ln 2 - (ln pi + 2 * ln 3) - ln 4]"
proof -
  note run = demo_run_PAk
  have i: "0 < N (demo_dup\<lparr>log_den := Some [ln 2 - ln pi - ln 4, ln 2 - ln pi - ln 4,
                                      ln 2 - ln pi - ln 4, ln 2 - (ln pi + 2 * ln 3) - ln 4],
             log_den_err := Some [sqrt 5, sqrt 5, sqrt 5, sqrt 5], dc := Some [1, 1, 1, 3]\<rparr>)"
    by (simp add: demo_dup_def)
  from PAk_underflow_fallback [OF run i] run i show ?thesis by simp
qed






section \<open>Pairwise differences\<close>

text \<open>
  C4. When \<open>compute_deltaFs_grads_semisum\<close> returns, for every position \<open>n\<close> of its
  two arrays, with \<open>(i, j)\<close> the pair of the neighbour graph and \<open>x\<close> the stored
  displacement that numpy pairs with \<open>n\<close> (pair \<open>n\<close> and displacement \<open>n\<close>
  wherever the arrays have one entry per pair; an array with a single entry is paired with
  every position): \<open>Fij_array[n] = 0.5 (grad\<^sub>i + grad\<^sub>j) \<cdot> x\<close> and
  \<open>Fij_var_array[n] = 0.25 (Var\<^sub>i + Var\<^sub>j + 2 \<chi> sqrt (Var\<^sub>i Var\<^sub>j))\<close> with
  \<open>Var\<^sub>i = x\<^sup>T Cov\<^sub>i x\<close>, \<open>Var\<^sub>j = x\<^sup>T Cov\<^sub>j x\<close>; for \<open>chi = "auto"\<close>,
  \<open>\<chi> = c / (k*(i) + k*(j) - c)\<close> with \<open>c\<close> the entry of \<open>common_neighs\<close> paired
  with \<open>n\<close>, for a number it is that number, which lies in \<open>[0, 1]\<close>. The arrays have
  the broadcast lengths, which is the number of pairs when every array has one entry per
  pair. A number outside \<open>[0, 1]\<close> never lets the call return, and raises AssertionError
  wherever the call with a number inside returns; every number inside \<open>[0, 1]\<close> is
  accepted wherever one of them is.
\<close>

theorem semisum_formula:
  "(compute_deltaFs_grads_semisum K chi s = Inr s' \<longrightarrow>
      (\<exists>nind ks g covs vd F FV.
         nind_list s' = Some nind \<and> kstar s' = Some ks \<and> grads s' = Some g \<and>
         grads_var s' = Some (GCov covs) \<and> neigh_vector_diffs s' = Some vd \<and>
         Fij_array s' = Some F \<and> Fij_var_array s' = Some FV \<and>
         length F = blen (length nind) (length vd) \<and>
         (\<forall>n<length F.
            bnth nind n \<in> set nind \<and> bnth vd n \<in> set vd \<and>
            fst (bnth nind n) < length g \<and> snd (bnth nind n) < length g \<and>
            F ! n = 0.5 * vdot (map2 (+) (g ! fst (bnth nind n)) (g ! snd (bnth nind n)))
                           (bnth vd n)) \<and>
         (\<exists>chiv.
            (case chi of
               ChiAuto \<Rightarrow>
                 (\<exists>cn chis. common_neighs s' = Some cn \<and> chiv = ChiArray chis \<and>
                    length chis = blen (length nind) (length cn) \<and>
                    length FV = blen (length F) (length chis) \<and>
                    (\<forall>n<length FV.
                       bnth cn n \<in> set cn \<and>
                       bnth chis n = real_of_int (bnth cn n)
                          / real_of_int (ks ! fst (bnth nind n) + ks ! snd (bnth nind n)
                                         - bnth cn n)))
             | ChiNum c \<Rightarrow> 0 \<le> c \<and> c \<le> 1 \<and> chiv = ChiScalar c \<and> length FV = length F) \<and>
            (\<forall>n<length FV.
               bnth nind n \<in> set nind \<and> bnth vd n \<in> set vd \<and>
               fst (bnth nind n) < length covs \<and> snd (bnth nind n) < length covs \<and>
               fst (bnth nind n) < length ks \<and> snd (bnth nind n) < length ks \<and>
               FV ! n =
                 0.25 * (quad_form (covs ! fst (bnth nind n)) (bnth vd n)
                         + quad_form (covs ! snd (bnth nind n)) (bnth vd n)
                         + 2 * chi_at chiv n
                             * sqrt (quad_form (covs ! fst (bnth nind n)) (bnth vd n)
                                     * quad_form (covs ! snd (bnth nind n)) (bnth vd n))))))) \<and>
   (\<forall>c. chi = ChiNum c \<longrightarrow> \<not> (0 \<le> c \<and> c \<le> 1) \<longrightarrow>
      (\<forall>s'. compute_deltaFs_grads_semisum K chi s \<noteq> Inr s') \<and>
      (\<forall>c0. (\<exists>s0. compute_deltaFs_grads_semisum K (ChiNum c0) s = Inr s0) \<longrightarrow>
         compute_deltaFs_grads_semisum K chi s = Inl AssertionError)) \<and>
   (\<forall>c. chi = ChiNum c \<longrightarrow> 0 \<le> c \<longrightarrow> c \<le> 1 \<longrightarrow>
      (\<forall>c0. (\<exists>s0. compute_deltaFs_grads_semisum K (ChiNum c0) s = Inr s0) \<longrightarrow>
         (\<exists>s1. compute_deltaFs_grads_semisum K chi s = Inr s1)))"
proof -
  have p1: "compute_deltaFs_grads_semisum K chi s = Inr s' \<longrightarrow>
      (\<exists>nind ks g covs vd F FV.
         nind_list s' = Some nind \<and> kstar s' = Some ks \<and> grads s' = Some g \<and>
         grads_var s' = Some (GCov covs) \<and> neigh_vector_diffs s' = Some vd \<and>
         Fij_array s' = Some F \<and> Fij_var_array s' = Some FV \<and>
         length F = blen (length nind) (length vd) \<and>
         (\<forall>n<length F.
            bnth nind n \<in> set nind \<and> bnth vd n \<in> set vd \<and>
            fst (bnth nind n) < length g \<and> snd (bnth nind n) < length g \<and>
            F ! n = 0.5 * vdot (map2 (+) (g ! fst (bnth nind n)) (g ! snd (bnth nind n)))
                           (bnth vd n)) \<and>
         (\<exists>chiv.
            (case chi of
               ChiAuto \<Rightarrow>
                 (\<exists>cn chis. common_neighs s' = Some cn \<and> chiv = ChiArray chis \<and>
                    length chis = blen (length nind) (length cn) \<and>
                    length FV = blen (length F) (length chis) \<and>
                    (\<forall>n<length FV.
                       bnth cn n \<in> set cn \<and>
                       bnth chis n = real_of_int (bnth cn n)
                          / real_of_int (ks ! fst (bnth nind n) + ks ! snd (bnth nind n)
                                         - bnth cn n)))
             | ChiNum c \<Rightarrow> 0 \<le> c \<and> c \<le> 1 \<and> chiv = ChiScalar c \<and> length FV = length F) \<and>
            (\<forall>n<length FV.
               bnth nind n \<in> set nind \<and> bnth vd n \<in> set vd \<and>
               fst (bnth nind n) < length covs \<and> snd (bnth nind n) < length covs \<and>
               fst (bnth nind n) < length ks \<and> snd (bnth nind n) < length ks \<and>
               FV ! n =
                 0.25 * (quad_form (covs ! fst (bnth nind n)) (bnth vd n)
                         + quad_form (covs ! snd (bnth nind n)) (bnth vd n)
                         + 2 * chi_at chiv n
                             * sqrt (quad_form (covs ! fst (bnth nind n)) (bnth vd n)
                                     * quad_form (covs ! snd (bnth nind n)) (bnth vd n))))))"
    by (rule impI) (rule semisum_values)
  have p2: "\<forall>c. chi = ChiNum c \<longrightarrow> \<not> (0 \<le> c \<and> c \<le> 1) \<longrightarrow>
      (\<forall>s'. compute_deltaFs_grads_semisum K chi s \<noteq> Inr s') \<and>
      (\<forall>c0. (\<exists>s0. compute_deltaFs_grads_semisum K (ChiNum c0) s = Inr s0) \<longrightarrow>
         compute_deltaFs_grads_semisum K chi s = Inl AssertionError)"
  proof (intro allI impI conjI)
    fix c s'
    assume c: "chi = ChiNum c" and bad: "\<not> (0 \<le> c \<and> c \<le> 1)"
    show "compute_deltaFs_grads_semisum K chi s \<noteq> Inr s'"
    proof
      assume run: "compute_deltaFs_grads_semisum K chi s = Inr s'"
      from semisum_result [OF run] obtain s2 s3 k1 k2 chiv where
        "semisum_chi K chi k1 k2 s2 = Inr (s3, chiv)"
        by blast
      with c bad show False by (auto simp: semisum_chi_def split: if_splits)
    qed
  next
    fix c c0
    assume c: "chi = ChiNum c" and bad: "\<not> (0 \<le> c \<and> c \<le> 1)"
      and ok: "\<exists>s0. compute_deltaFs_grads_semisum K (ChiNum c0) s = Inr s0"
    then obtain s0 where run0: "compute_deltaFs_grads_semisum K (ChiNum c0) s = Inr s0"
      by blast
    from semisum_result [OF run0] obtain s1 s2 nind ks k1 k2 g g1 g2 gv g_var1 g_var2 where
      "ensure_vector_diffs K s = Inr s1"
      "ensure_covmat_grads K s1 = Inr s2"
      "nind_list s2 = Some nind" "kstar s2 = Some ks"
      "np_take ks (map fst nind) = Inr k1" "np_take ks (map snd nind) = Inr k2"
      "grads s2 = Some g"
      "np_take g (map fst nind) = Inr g1" "np_take g (map snd nind) = Inr g2"
      "grads_var s2 = Some gv"
      "gvar_take gv (map fst nind) = Inr g_var1" "gvar_take gv (map snd nind) = Inr g_var2"
      by blast
    moreover from bad have "(0 \<le> c \<and> c \<le> 1) = False" by simp
    ultimately show "compute_deltaFs_grads_semisum K chi s = Inl AssertionError"
      using c
      by (auto simp: compute_deltaFs_grads_semisum_def ebind_def need_def semisum_chi_def)
  qed
  have p3: "\<forall>c. chi = ChiNum c \<longrightarrow> 0 \<le> c \<longrightarrow> c \<le> 1 \<longrightarrow>
      (\<forall>c0. (\<exists>s0. compute_deltaFs_grads_semisum K (ChiNum c0) s = Inr s0) \<longrightarrow>
         (\<exists>s1. compute_deltaFs_grads_semisum K chi s = Inr s1))"
    by (auto dest: semisum_accepts)
  from p1 p2 p3 show ?thesis by (intro conjI)
qed

theorem semisum_formula_witness:
  "compute_deltaFs_grads_semisum demo_kernels ChiAuto demo_graph = Inr demo_ready \<and>
   Fij_array demo_ready = Some [3 / 2, - 3 / 2, - 5] \<and>
   Fij_var_array demo_ready = Some [9 / 4, 9 / 4, 19 / 3] \<and>
   (\<exists>nind vd F. nind_list demo_ready = Some nind \<and> neigh_vector_diffs demo_ready = Some vd \<and>
      Fij_array demo_ready = Some F \<and> length F = blen (length nind) (length vd)) \<and>
   (0 \<le> (1 / 2 :: real) \<and> (1 / 2 :: real) \<le> 1) \<and>
   (\<exists>s0. compute_deltaFs_grads_semisum demo_kernels (ChiNum 0) demo_graph = Inr s0) \<and>
   (\<exists>s1. compute_deltaFs_grads_semisum demo_kernels (ChiNum (1 / 2)) demo_graph = Inr s1 \<and>
      Fij_var_array s1 = Some [7 / 4, 7 / 4, 7] \<and>
      (\<exists>nind F FV. nind_list s1 = Some nind \<and> Fij_array s1 = Some F \<and>
         Fij_var_array s1 = Some FV \<and> length FV = length F)) \<and>
   \<not> (0 \<le> (2::real) \<and> (2::real) \<le> 1) \<and>
   compute_deltaFs_grads_semisum demo_kernels (ChiNum 2) demo_graph = Inl AssertionError"
proof -
  note t1 = semisum_formula [of demo_kernels ChiAuto demo_graph demo_ready,
      THEN conjunct1, THEN mp, OF demo_run_semisum]
  then have a: "\<exists>nind vd F. nind_list demo_ready = Some nind \<and>
      neigh_vector_diffs demo_ready = Some vd \<and>
      Fij_array demo_ready = Some F \<and> length F = blen (length nind) (length vd)"
    by blast
  have ok: "0 \<le> (1 / 2 :: real)" "(1 / 2 :: real) \<le> 1" by simp_all
  have bad: "\<not> (0 \<le> (2::real) \<and> (2::real) \<le> 1)" by simp
  note t2 = semisum_formula [of demo_kernels "ChiNum 2" demo_graph demo_ready,
      THEN conjunct2, THEN conjunct1, THEN spec, of 2, THEN mp, OF refl, THEN mp, OF bad,
      THEN conjunct2, THEN spec, of 0, THEN mp, OF demo_run_semisum_zero]
  note t3 = semisum_formula [of demo_kernels "ChiNum (1 / 2)" demo_graph demo_ready,
      THEN conjunct2, THEN conjunct2, THEN spec, of "1 / 2", THEN mp, OF refl,
      THEN mp, OF ok(1), THEN mp, OF ok(2), THEN spec, of 0, THEN mp, OF demo_run_semisum_zero]
  then obtain s1 where
    r1: "compute_deltaFs_grads_semisum demo_kernels (ChiNum (1 / 2)) demo_graph = Inr s1"
    by blast
  note t4 = semisum_formula [of demo_kernels "ChiNum (1 / 2)" demo_graph s1,
      THEN conjunct1, THEN mp, OF r1]
  then have b: "\<exists>nind F FV. nind_list s1 = Some nind \<and> Fij_array s1 = Some F \<and>
         Fij_var_array s1 = Some FV \<and> length FV = length F"
    by auto
  from r1 [unfolded demo_run_semisum_half] have v: "Fij_var_array s1 = Some [7 / 4, 7 / 4, 7]"
    by auto
  from r1 v b have c: "\<exists>s1. compute_deltaFs_grads_semisum demo_kernels (ChiNum (1 / 2)) demo_graph
        = Inr s1 \<and> Fij_var_array s1 = Some [7 / 4, 7 / 4, 7] \<and>
      (\<exists>nind F FV. nind_list s1 = Some nind \<and> Fij_array s1 = Some F \<and>
         Fij_var_array s1 = Some FV \<and> length FV = length F)"
    by blast
  have f: "Fij_array demo_ready = Some [3 / 2, - 3 / 2, - 5]"
    "Fij_var_array demo_ready = Some [9 / 4, 9 / 4, 19 / 3]"
    by (simp_all add: demo_ready_def)
  from demo_run_semisum f a ok demo_run_semisum_zero c bad t2 show ?thesis by (intro conjI)
qed

text \<open>
  The same call with a one-entry \<open>common_neighs\<close> returns: the entry is broadcast over the
  three pairs, \<open>\<chi> = 2 / (2 + 2 - 2) = 1\<close> for each.
\<close>

lemma semisum_broadcasts_common_neighs:
  "Fij_var_of (compute_deltaFs_grads_semisum demo_kernels ChiAuto
                 (demo_graph\<lparr>common_neighs := Some [2]\<rparr>)) = Some [9 / 4, 9 / 4, 9]"
  by (simp add: demo_run_semisum_broadcast Fij_var_of_def)

section \<open>The graph solve\<close>

text \<open>
  C3, as the code has it. When \<open>compute_density_gCorr\<close> returns, no pair of the
  neighbour graph joins a point to itself and every weight is a finite number (for every pair
  \<open>k*(i) k*(j) > 0\<close>, and with \<open>use_variance\<close> no \<open>Fij_var_array\<close> entry is
  zero), every row of the stored matrix \<open>A\<close> sums to zero, and each diagonal entry is
  minus the sum of the other entries of its row. (Sums of reals; the floating-point sums agree
  up to rounding. At a zero variance or a zero \<open>k*\<close> the source divides by zero and stores
  an infinite weight, and at a negative product the square root is not a number: the row sum
  of the program is then not a number, and the reals of the model do not follow it.)
\<close>

theorem gCorr_rows_sum_to_zero:
  assumes run: "compute_density_gCorr K use_variance s = Inr s'"
    and graph: "nind_list s' = Some nind"
    and loops: "\<forall>(i, j)\<in>set nind. i \<noteq> j"
    and ranks: "kstar s' = Some ks" "\<forall>(i, j)\<in>set nind. 0 < ks ! i * ks ! j"
    and vars: "use_variance \<longrightarrow>
                 (\<exists>fv. Fij_var_array s' = Some fv \<and> (\<forall>n<length nind. fv ! n \<noteq> 0))"
    and i: "i < N s'"
  shows "\<exists>a. A s' = Some a \<and> (\<Sum>j<N s'. a i j) = 0 \<and>
             a i i = - (\<Sum>j\<in>{..<N s'} - {i}. a i j)"
proof -
  from gCorr_result [OF run] obtain s1 nind1 ks fij a b where
    n1: "nind_list s1 = Some nind1"
    and sys: "gCorr_system use_variance (N s1) ks nind1 fij (Fij_var_array s1) = Inr (a, b)"
    and s': "s' = store_solution K a b s1"
    by blast
  from s' n1 graph have "nind1 = nind" by (simp add: store_solution_fields)
  with sys loops i s' have "(\<Sum>j<N s1. a i j) = 0 \<and> a i i = - (\<Sum>j\<in>{..<N s1} - {i}. a i j)"
    by (intro gCorr_system_rows) (simp_all add: store_solution_fields)
  with s' show ?thesis by (simp add: store_solution_fields)
qed

theorem gCorr_rows_sum_to_zero_witness:
  "\<exists>s'. compute_density_gCorr demo_kernels True demo_ready = Inr s' \<and>
        nind_list s' = Some [(0, 1), (1, 0), (2, 1)] \<and>
        (\<forall>(i, j)\<in>set [(0::nat, 1::nat), (1, 0), (2, 1)]. i \<noteq> j) \<and>
        kstar s' = Some [2, 2, 2] \<and>
        (\<forall>(i, j)\<in>set [(0::nat, 1::nat), (1, 0), (2, 1)]. 0 < [2, 2, 2 :: int] ! i * [2, 2, 2] ! j) \<and>
        Fij_var_array s' = Some [9 / 4, 9 / 4, 19 / 3] \<and>
        (\<forall>n<length [(0::nat, 1::nat), (1, 0), (2, 1)]. [9 / 4, 9 / 4, 19 / 3 :: real] ! n \<noteq> 0) \<and>
        1 < N s' \<and>
        (\<exists>a. A s' = Some a \<and> (\<Sum>j<N s'. a 1 j) = 0 \<and>
              a 1 1 = - (\<Sum>j\<in>{..<N s'} - {1}. a 1 j))"
proof -
  from demo_run_gCorr [of demo_kernels True] obtain a b where
    run: "compute_density_gCorr demo_kernels True demo_ready
            = Inr (store_solution demo_kernels a b demo_ready)"
    by blast
  have g: "nind_list (store_solution demo_kernels a b demo_ready) = Some [(0, 1), (1, 0), (2, 1)]"
    by (simp add: store_solution_fields demo_ready_def demo_graph_def demo_session_def)
  have l: "\<forall>(i, j)\<in>set [(0::nat, 1::nat), (1, 0), (2, 1)]. i \<noteq> j" by simp
  have k: "kstar (store_solution demo_kernels a b demo_ready) = Some [2, 2, 2]"
    by (simp add: store_solution_fields demo_ready_def demo_graph_def demo_session_def)
  have p: "\<forall>(i, j)\<in>set [(0::nat, 1::nat), (1, 0), (2, 1)]. 0 < [2, 2, 2 :: int] ! i * [2, 2, 2] ! j"
    by simp
  have fv: "Fij_var_array (store_solution demo_kernels a b demo_ready)
              = Some [9 / 4, 9 / 4, 19 / 3]"
    by (simp add: store_solution_fields demo_ready_def)
  have nz: "\<forall>n<length [(0::nat, 1::nat), (1, 0), (2, 1)]. [9 / 4, 9 / 4, 19 / 3 :: real] ! n \<noteq> 0"
    by (simp add: less_Suc_eq eval_nat_numeral)
  from fv nz have v: "True \<longrightarrow> (\<exists>fv. Fij_var_array (store_solution demo_kernels a b demo_ready)
      = Some fv \<and> (\<forall>n<length [(0::nat, 1::nat), (1, 0), (2, 1)]. fv ! n \<noteq> 0))"
    by simp
  have i: "1 < N (store_solution demo_kernels a b demo_ready)"
    by (simp add: store_solution_fields demo_ready_def demo_graph_def demo_session_def)
  from gCorr_rows_sum_to_zero [OF run g l k p v i] run g l k p fv nz i show ?thesis by blast
qed

text \<open>
  C3 as stated fails when the neighbour graph holds a pair \<open>(i, i)\<close>: the loop stores its
  weight on the diagonal, the symmetrisation doubles it, and the diagonal is then overwritten
  with minus the sum of the whole row, that entry included. On the three-point session with
  the pairs \<open>(0, 1)\<close>, \<open>(1, 1)\<close>, \<open>(2, 1)\<close> row 1 of \<open>A\<close> sums to \<open>4/9\<close>.
\<close>

theorem gCorr_self_pair_row:
  "nind_list demo_self_pair = Some [(0, 1), (1, 1), (2, 1)] \<and>
   row_sum_of (compute_density_gCorr demo_kernels True demo_self_pair) 1 = Some (4 / 9) \<and>
   row_sum_of (compute_density_gCorr demo_kernels True demo_self_pair) 1 \<noteq> Some 0"
  by (simp add: row_sum_of_def compute_density_gCorr_def ensure_Fij_array_def
      store_solution_def demo_self_pair_def demo_ready_def demo_graph_def demo_session_def
      system_eval)


text \<open>
  C5. Without variance weighting \<open>compute_density_gCorr\<close> stores \<open>-1/redundancy\<close> in
  \<open>A\<close> but the bare \<open>Fij\<close> in \<open>supp_deltaF\<close>, so the right-hand side is the
  unweighted net flow; \<open>compute_density_dF_PAk_gCorr\<close> divides by the redundancy in the same
  branch. On the three-point graph with \<open>k* = 2\<close> (redundancy 2) and
  \<open>Fij = 3/2, -3/2, -5\<close> the first gives \<open>-3, -2, 5\<close>, the second (with
  \<open>\<alpha> = 1\<close>) the weighted \<open>-3/2, -1, 5/2\<close>.
\<close>

theorem gCorr_rhs_unweighted:
  "system_rhs (gCorr_system False 3 [2, 2, 2] [(0, 1), (1, 0), (2, 1)] [3 / 2, - 3 / 2, - 5]
                 (Some [9 / 4, 9 / 4, 19 / 3])) = Some [- 3, - 2, 5] \<and>
   system_entry (gCorr_system False 3 [2, 2, 2] [(0, 1), (1, 0), (2, 1)] [3 / 2, - 3 / 2, - 5]
                 (Some [9 / 4, 9 / 4, 19 / 3])) 2 1 = Some (- 1 / 2) \<and>
   system_rhs (dF_PAk_gCorr_system False 1 3 [2, 2, 2] [(0, 1), (1, 0), (2, 1)]
                 [3 / 2, - 3 / 2, - 5] (Some [9 / 4, 9 / 4, 19 / 3]) [1, 1, 1])
     = Some [- 3 / 2, - 1, 5 / 2]"
  by (simp add: system_rhs_def system_entry_def system_eval)





end
